theory Spec2Isabelle
  imports Main
begin

section \<open>JavaScript values\<close>

text \<open>
  The translators of kube-icinga (src/kube/node.ts, volume.ts, ingress.ts) receive decoded
  cluster objects typed \<open>any\<close> and build monitoring definitions by object literals and
  \<open>Object.assign\<close>. Both are modelled as JSON values. An object is an association list
  whose first entry for a key is the property. Numbers are integers.
\<close>

datatype json =
    JUndefined
  | JNull
  | JBool bool
  | JNum int
  | JStr string
  | JArr "json list"
  | JObj "(string \<times> json) list"

text \<open>
  Two failures occur in the sources: the TypeError of the runtime (a property read on
  \<open>undefined\<close> or \<open>null\<close>, a \<open>for ... of\<close> over a value that is not iterable, a string
  method on a value that is not a string) and the \<open>Error\<close> thrown by volume.ts.
\<close>

datatype error = TypeError | Error string

text \<open>The truth value of a condition: \<open>if (v)\<close>, \<open>!v\<close>, \<open>a || b\<close>, \<open>a && b\<close>.\<close>

fun truthy :: "json \<Rightarrow> bool" where
  "truthy JUndefined = False"
| "truthy JNull = False"
| "truthy (JBool b) = b"
| "truthy (JNum n) = (n \<noteq> 0)"
| "truthy (JStr s) = (s \<noteq> [])"
| "truthy (JArr xs) = True"
| "truthy (JObj kvs) = True"

text \<open>
  The property read \<open>v.k\<close>. It throws on \<open>undefined\<close> and \<open>null\<close>; a missing key reads as
  \<open>undefined\<close>. None of the keys the translators read is a built-in member of a string,
  number, boolean or array, so those read as \<open>undefined\<close> too.
\<close>

fun get_prop :: "json \<Rightarrow> string \<Rightarrow> error + json" where
  "get_prop JUndefined k = Inl TypeError"
| "get_prop JNull k = Inl TypeError"
| "get_prop (JObj kvs) k = Inr (case map_of kvs k of Some v \<Rightarrow> v | None \<Rightarrow> JUndefined)"
| "get_prop (JBool b) k = Inr JUndefined"
| "get_prop (JNum n) k = Inr JUndefined"
| "get_prop (JStr s) k = Inr JUndefined"
| "get_prop (JArr xs) k = Inr JUndefined"

text \<open>A chain of property reads, \<open>v.k1.k2\<close>, left to right.\<close>

fun path :: "json \<Rightarrow> string list \<Rightarrow> error + json" where
  "path v [] = Inr v"
| "path v (k # ks) = (case get_prop v k of Inl e \<Rightarrow> Inl e | Inr u \<Rightarrow> path u ks)"

text \<open>Decimal digits of a number, for its conversion to a string.\<close>

fun digits :: "nat \<Rightarrow> string" where
  "digits n = (if n < 10 then [''0123456789'' ! n]
               else digits (n div 10) @ [''0123456789'' ! (n mod 10)])"

definition int_str :: "int \<Rightarrow> string" where
  "int_str i = (if i < 0 then CHR ''-'' # digits (nat (- i)) else digits (nat i))"

fun join_with :: "string \<Rightarrow> string list \<Rightarrow> string" where
  "join_with sep [] = []"
| "join_with sep [x] = x"
| "join_with sep (x # y # ys) = x @ sep @ join_with sep (y # ys)"

text \<open>
  The conversion to a string of a template literal and of \<open>+\<close> with a string. An array
  joins its elements with a comma, \<open>undefined\<close> and \<open>null\<close> elements as the empty string.
\<close>

fun to_string :: "json \<Rightarrow> string" where
  "to_string JUndefined = ''undefined''"
| "to_string JNull = ''null''"
| "to_string (JBool b) = (if b then ''true'' else ''false'')"
| "to_string (JNum n) = int_str n"
| "to_string (JStr s) = s"
| "to_string (JArr xs) =
     join_with '','' (map (\<lambda>x. if x = JUndefined \<or> x = JNull then [] else to_string x) xs)"
| "to_string (JObj kvs) = ''[object Object]''"

text \<open>\<open>[a, b, c].join(sep)\<close>.\<close>

definition array_join :: "string \<Rightarrow> json list \<Rightarrow> string" where
  "array_join sep xs =
     join_with sep (map (\<lambda>x. if x = JUndefined \<or> x = JNull then [] else to_string x) xs)"

text \<open>
  The values a \<open>for ... of\<close> loop visits: the elements of an array, the characters of a
  string; any other JSON value is not iterable.
\<close>

fun iterate :: "json \<Rightarrow> error + json list" where
  "iterate (JArr xs) = Inr xs"
| "iterate (JStr s) = Inr (map (\<lambda>c. JStr [c]) s)"
| "iterate JUndefined = Inl TypeError"
| "iterate JNull = Inl TypeError"
| "iterate (JBool b) = Inl TypeError"
| "iterate (JNum n) = Inl TypeError"
| "iterate (JObj kvs) = Inl TypeError"

text \<open>The assignment \<open>o[k] = v\<close>: an existing key keeps its place, a new one goes last.\<close>

fun set_prop :: "(string \<times> json) list \<Rightarrow> string \<Rightarrow> json \<Rightarrow> (string \<times> json) list" where
  "set_prop [] k v = [(k, v)]"
| "set_prop ((k', v') # kvs) k v =
     (if k' = k then (k, v) # kvs else (k', v') # set_prop kvs k v)"

text \<open>The own properties of an object in order: the first entry of each key.\<close>

fun own_entries :: "string list \<Rightarrow> (string \<times> json) list \<Rightarrow> (string \<times> json) list" where
  "own_entries seen [] = []"
| "own_entries seen ((k, v) # kvs) =
     (if k \<in> set seen then own_entries seen kvs else (k, v) # own_entries (k # seen) kvs)"

text \<open>\<open>Object.assign(target, source)\<close>: every own property of the source is assigned to the target.\<close>

definition assign :: "(string \<times> json) list \<Rightarrow> (string \<times> json) list \<Rightarrow> (string \<times> json) list" where
  "assign target source = foldl (\<lambda>t (k, v). set_prop t k v) target (own_entries [] source)"

section \<open>Collaborators\<close>

text \<open>
  The requests a translator sends to the monitoring system through \<open>this.icinga\<close>.
\<close>

datatype icinga_call =
    ApplyHost json "(string \<times> json) list" "string list"
  | ApplyService json string "(string \<times> json) list" "string list"
  | ApplyServiceGroup json "(string \<times> json) list option"
  | DeleteHost json
  | DeleteServicesByFilter string

text \<open>
  The state the translators share: the requests sent so far, oldest first, and the field
  \<open>nodes\<close> of the Node translator (node.ts, line 23), which the other two read through
  \<open>getWorkerNodes\<close>. Its entries are the values of \<open>metadata.name\<close> as they were pushed.
\<close>

record world =
  calls :: "icinga_call list"
  nodes :: "json list"

text \<open>
  Modelled from the spec: the Monitoring Client Facade (src/icinga.ts is not among the
  sources). Section 6 gives \<open>applyHost\<close>, \<open>applyService\<close>, \<open>applyServiceGroup\<close>,
  \<open>deleteHost\<close> and \<open>deleteServicesByFilter\<close>, each a promise of a boolean. The model
  records the request with the arguments as they are at the call, and the promise
  resolves; the boolean it resolves to is not modelled, so a translator's own result is
  either an error or nothing. A rejected promise (section 7 (c)) is not modelled: it would
  end the function that awaits it (ingress.ts lines 84, 92 and 142, volume.ts lines 95
  and 107) at that request. What is proved below is proved of the runs in which the
  awaited requests resolve.
\<close>

definition icinga :: "icinga_call \<Rightarrow> world \<Rightarrow> world" where
  "icinga c w = w\<lparr>calls := calls w @ [c]\<rparr>"

text \<open>
  The helpers of the base class (src/kube/abstract.resource.ts is not among the sources)
  that the translators call. Section 4.1 of the spec gives their signatures only, so they
  are parameters: \<open>escapeName\<close> from strings to strings, \<open>prepareTemplates\<close> from an object
  to template names, \<open>prepareResource\<close> from an object to a mapping of override fields.
\<close>

record helpers =
  escapeName :: "string \<Rightarrow> string"
  prepareTemplates :: "json \<Rightarrow> string list"
  prepareResource :: "json \<Rightarrow> (string \<times> json) list"

text \<open>
  \<open>this.escapeName(v)\<close> on a value: \<open>escapeName\<close> is declared on strings, and a value that
  is not a string has no string methods.
\<close>

fun escape_value :: "helpers \<Rightarrow> json \<Rightarrow> error + string" where
  "escape_value h (JStr s) = Inr (escapeName h s)"
| "escape_value h JUndefined = Inl TypeError"
| "escape_value h JNull = Inl TypeError"
| "escape_value h (JBool b) = Inl TypeError"
| "escape_value h (JNum n) = Inl TypeError"
| "escape_value h (JArr xs) = Inl TypeError"
| "escape_value h (JObj kvs) = Inl TypeError"

text \<open>
  Modelled from the spec: \<open>getAnnotations\<close> of the base class (not among the sources).
  Section 4.1: it returns the object's annotation mapping or an empty mapping if absent,
  and never fails.
\<close>

definition getAnnotations :: "json \<Rightarrow> json" where
  "getAnnotations d =
     (case path d [''metadata''] of
        Inl e \<Rightarrow> JObj []
      | Inr m \<Rightarrow>
          (case path m [''annotations''] of
             Inl e \<Rightarrow> JObj []
           | Inr a \<Rightarrow> if truthy a then a else JObj []))"

text \<open>
  The options of a translator (\<open>NodeOptions\<close>, \<open>VolumeOptions\<close>, \<open>IngressOptions\<close>; the
  TranslationOptions of the spec). \<open>hostName\<close> is a string or \<open>null\<close>.
\<close>

record options =
  discover :: bool
  applyServices :: bool
  attachToNodes :: bool
  hostName :: "string option"
  hostDefinition :: "(string \<times> json) list"
  serviceDefinition :: "(string \<times> json) list"
  serviceGroupDefinition :: "(string \<times> json) list"
  hostTemplates :: "string list"
  serviceTemplates :: "string list"

text \<open>A change event of the watch stream (\<open>WatchEvent\<close> in volume.ts): \<open>{type, object}\<close>.\<close>

record event =
  ev_type :: string
  ev_object :: json

text \<open>
  Modelled from the spec: \<open>handleResource\<close> of the base class (not among the sources).
  Section 4.2: it routes ADDED/MODIFIED to \<open>prepareObject\<close> unless \<open>options.discover\<close> is
  false (in which case the event is ignored entirely), and DELETED to \<open>deleteObject\<close>; a
  translation failure for one object is caught and reported but never aborts the watch
  loop. Section 7 (d): an event that embeds an object of an unexpected kind is dropped,
  no translation attempted.
\<close>

definition handleResource ::
  "string \<Rightarrow> event \<Rightarrow> options \<Rightarrow> (json \<Rightarrow> world \<Rightarrow> (error + 'a) \<times> world) \<Rightarrow>
   (json \<Rightarrow> world \<Rightarrow> (error + 'b) \<times> world) \<Rightarrow> world \<Rightarrow> world" where
  "handleResource kind ev opts prepareObject deleteObject w =
     (if path (ev_object ev) [''kind''] \<noteq> Inr (JStr kind) then w
      else if ev_type ev = ''ADDED'' \<or> ev_type ev = ''MODIFIED'' then
        (if discover opts then snd (prepareObject (ev_object ev) w) else w)
      else if ev_type ev = ''DELETED'' then snd (deleteObject (ev_object ev) w)
      else w)"

section \<open>Node translator (src/kube/node.ts)\<close>

text \<open>\<open>getWorkerNodes\<close>: the collected nodes.\<close>

definition getWorkerNodes :: "world \<Rightarrow> json list" where
  "getWorkerNodes w = nodes w"

text \<open>The object literal \<open>host\<close> of \<open>prepareObject\<close>, before the configured override.\<close>

definition node_host :: "json \<Rightarrow> json \<Rightarrow> (string \<times> json) list" where
  "node_host name d =
     [(''display_name'', name),
      (''address'', name),
      (''vars._kubernetes'', JBool True),
      (''vars.kubernetes'', d),
      (''check_command'', JStr ''ping'')]"

text \<open>
  \<open>Node.prepareObject\<close>: builds the host, pushes the name of a node that is not flagged
  unschedulable, merges \<open>hostDefinition\<close> and applies the host under the node's name.
\<close>

definition node_prepareObject :: "options \<Rightarrow> json \<Rightarrow> world \<Rightarrow> (error + unit) \<times> world" where
  "node_prepareObject opts d w =
     (case path d [''metadata'', ''name''] of
        Inl e \<Rightarrow> (Inl e, w)
      | Inr name \<Rightarrow>
          (case path d [''spec'', ''unschedulable''] of
             Inl e \<Rightarrow> (Inl e, w)
           | Inr u \<Rightarrow>
               (let w1 = (if \<not> truthy u then w\<lparr>nodes := nodes w @ [name]\<rparr> else w);
                    host = assign (node_host name d) (hostDefinition opts)
                in (Inr (), icinga (ApplyHost name host (hostTemplates opts)) w1))))"

text \<open>\<open>Node.deleteObject\<close>: deletes the host named after the node.\<close>

definition node_deleteObject :: "json \<Rightarrow> world \<Rightarrow> (error + unit) \<times> world" where
  "node_deleteObject d w =
     (case path d [''metadata'', ''name''] of
        Inl e \<Rightarrow> (Inl e, w)
      | Inr name \<Rightarrow> (Inr (), icinga (DeleteHost name) w))"

text \<open>
  The \<open>data\<close> callback of \<open>Node.kubeListener\<close>: a MODIFIED event is ignored, every other
  event goes to \<open>handleResource\<close>.
\<close>

definition node_on_data :: "options \<Rightarrow> event \<Rightarrow> world \<Rightarrow> world" where
  "node_on_data opts ev w =
     (if ev_type ev = ''MODIFIED'' then w
      else handleResource ''Node'' ev opts (node_prepareObject opts) node_deleteObject w)"

text \<open>The Node watch loop over the events of a stream, in order.\<close>

definition node_watch :: "options \<Rightarrow> event list \<Rightarrow> world \<Rightarrow> world" where
  "node_watch opts evs w = foldl (\<lambda>w ev. node_on_data opts ev w) w evs"

section \<open>The service fan-out shared by volume.ts and ingress.ts\<close>

text \<open>
  The loop of \<open>applyService\<close> under \<open>attachToNodes\<close>: for every worker node the definition
  gets the node as \<open>host_name\<close> and is applied to that node. The definition is one object
  that the loop mutates, so the updated definition is returned with the world.
\<close>

fun attach_nodes ::
  "string \<Rightarrow> string list \<Rightarrow> json list \<Rightarrow> (string \<times> json) list \<Rightarrow> world \<Rightarrow>
   (string \<times> json) list \<times> world" where
  "attach_nodes name templates [] definition w = (definition, w)"
| "attach_nodes name templates (node # ns) definition w =
     (let definition' = set_prop definition ''host_name'' node
      in attach_nodes name templates ns definition'
           (icinga (ApplyService node name definition' templates) w))"

section \<open>Volume translator (src/kube/volume.ts)\<close>

text \<open>The object literal \<open>definition\<close> of \<open>Volume.applyHost\<close>.\<close>

definition volume_host :: "json \<Rightarrow> json \<Rightarrow> json \<Rightarrow> (string \<times> json) list" where
  "volume_host name address metadata =
     [(''display_name'', name),
      (''address'', address),
      (''check_command'', JStr ''dummy''),
      (''vars.dummy_state'', JNum 0),
      (''vars._kubernetes'', JBool True),
      (''vars.kubernetes'', metadata)]"

text \<open>
  \<open>Volume.applyHost\<close>: a dummy-check host, overridden by \<open>hostDefinition\<close>. The templates
  applied are \<open>this.options.hostTemplates\<close>, not the parameter.
\<close>

definition volume_applyHost ::
  "options \<Rightarrow> json \<Rightarrow> json \<Rightarrow> json \<Rightarrow> string list \<Rightarrow> world \<Rightarrow> world" where
  "volume_applyHost opts name address metadata templates w =
     icinga (ApplyHost name (assign (volume_host name address metadata) (hostDefinition opts))
               (hostTemplates opts)) w"

text \<open>\<open>Volume.applyService\<close>: once per worker node, or once on the given host.\<close>

definition volume_applyService ::
  "options \<Rightarrow> json \<Rightarrow> string \<Rightarrow> (string \<times> json) list \<Rightarrow> string list \<Rightarrow> world \<Rightarrow>
   (string \<times> json) list \<times> world" where
  "volume_applyService opts host name definition templates w =
     (if attachToNodes opts then attach_nodes name templates (getWorkerNodes w) definition w
      else (let definition' = set_prop definition ''host_name'' host
            in (definition', icinga (ApplyService host name definition' templates) w)))"

text \<open>\<open>this.options.hostName\<close> as a value.\<close>

definition hostName_value :: "options \<Rightarrow> json" where
  "hostName_value opts = (case hostName opts of None \<Rightarrow> JNull | Some s \<Rightarrow> JStr s)"

text \<open>
  \<open>Volume.getHostname\<close>: the annotation \<open>kube-icinga/host\<close> when it is truthy; else, when
  \<open>hostName\<close> is \<open>null\<close> and the object has a truthy \<open>metadata.name\<close>, the escaped join of
  \<open>volume\<close> and the name; else the configured \<open>hostName\<close>.
\<close>

definition getHostname :: "helpers \<Rightarrow> options \<Rightarrow> json \<Rightarrow> error + json" where
  "getHostname h opts d =
     (case get_prop (getAnnotations d) ''kube-icinga/host'' of
        Inl e \<Rightarrow> Inl e
      | Inr a \<Rightarrow>
          if truthy a then Inr a
          else if hostName opts = None then
            (case get_prop d ''metadata'' of
               Inl e \<Rightarrow> Inl e
             | Inr m \<Rightarrow>
                 if truthy m then
                   (case get_prop m ''name'' of
                      Inl e \<Rightarrow> Inl e
                    | Inr n \<Rightarrow>
                        if truthy n
                        then Inr (JStr (escapeName h (array_join ''-'' [JStr ''volume'', n])))
                        else Inr (hostName_value opts))
                 else Inr (hostName_value opts))
          else Inr (hostName_value opts))"

text \<open>
  The guard of \<open>Volume.prepareObject\<close> (lines 98 to 100): it throws unless
  \<open>definition.metadata\<close> and \<open>definition.metadata.name\<close> are truthy, and the name is what
  the rest of the function reads.
\<close>

definition volume_required_name :: "json \<Rightarrow> error + json" where
  "volume_required_name d =
     (case get_prop d ''metadata'' of
        Inl e \<Rightarrow> Inl e
      | Inr m \<Rightarrow>
          if \<not> truthy m then Inl (Error ''resource name in metadata is required'')
          else
            (case get_prop m ''name'' of
               Inl e \<Rightarrow> Inl e
             | Inr n \<Rightarrow>
                 if \<not> truthy n then Inl (Error ''resource name in metadata is required'')
                 else Inr n))"

text \<open>
  The object literal \<open>addition\<close> of \<open>Volume.prepareObject\<close> (lines 115 to 121) for the
  name, the volume \<open>d\<close> and the groups.
\<close>

definition volume_addition :: "json \<Rightarrow> json \<Rightarrow> json list \<Rightarrow> (string \<times> json) list" where
  "volume_addition name d groups =
     [(''check_command'', JStr ''dummy''),
      (''display_name'', JStr (to_string name @ '':volume'')),
      (''vars._kubernetes'', JBool True),
      (''vars.kubernetes'', d),
      (''groups'', JArr groups)]"

text \<open>
  The block of \<open>Volume.prepareObject\<close> under \<open>applyServices\<close> (lines 102 to 126): the
  service group of the claim's namespace when that is truthy, then the service, whose
  definition is \<open>addition\<close> overridden by \<open>serviceDefinition\<close> and then by
  \<open>prepareResource\<close>.
\<close>

definition volume_services ::
  "helpers \<Rightarrow> options \<Rightarrow> json \<Rightarrow> json \<Rightarrow> json \<Rightarrow> world \<Rightarrow> (error + unit) \<times> world" where
  "volume_services h opts d hostname name w =
     (case path d [''spec'', ''claimRef'', ''namespace''] of
        Inl e \<Rightarrow> (Inl e, w)
      | Inr ns \<Rightarrow>
          (let groups = (if truthy ns then [ns] else []);
               w1 = (if truthy ns
                     then icinga (ApplyServiceGroup ns
                            (Some (assign [(''vars._kubernetes'', JBool True)]
                                     (serviceGroupDefinition opts)))) w
                     else w);
               templates = serviceTemplates opts @ prepareTemplates h d
           in (case escape_value h name of
                 Inl e \<Rightarrow> (Inl e, w1)
               | Inr service_name \<Rightarrow>
                   (let addition = assign (assign (volume_addition name d groups)
                                             (serviceDefinition opts))
                                     (prepareResource h d)
                    in (Inr (),
                        snd (volume_applyService opts hostname service_name addition
                               templates w1))))))"

text \<open>
  \<open>Volume.prepareObject\<close>: the host first (unless services attach to nodes), then the
  guard on the name, then the services.
\<close>

definition volume_prepareObject ::
  "helpers \<Rightarrow> options \<Rightarrow> json \<Rightarrow> world \<Rightarrow> (error + unit) \<times> world" where
  "volume_prepareObject h opts d w =
     (case getHostname h opts d of
        Inl e \<Rightarrow> (Inl e, w)
      | Inr hostname \<Rightarrow>
          (let w1 = (if \<not> attachToNodes opts
                     then volume_applyHost opts hostname hostname d (hostTemplates opts) w
                     else w)
           in (case volume_required_name d of
                 Inl e \<Rightarrow> (Inl e, w1)
               | Inr name \<Rightarrow>
                   if applyServices opts then volume_services h opts d hostname name w1
                   else (Inr (), w1))))"

text \<open>
  \<open>Volume.deleteObject\<close>: with \<open>hostName\<close> \<open>null\<close> the resolved host is deleted, otherwise
  the services whose recorded uid is the object's.
\<close>

definition volume_deleteObject ::
  "helpers \<Rightarrow> options \<Rightarrow> json \<Rightarrow> world \<Rightarrow> (error + unit) \<times> world" where
  "volume_deleteObject h opts d w =
     (if hostName opts = None then
        (case getHostname h opts d of
           Inl e \<Rightarrow> (Inl e, w)
         | Inr hostname \<Rightarrow> (Inr (), icinga (DeleteHost hostname) w))
      else
        (case path d [''metadata'', ''uid''] of
           Inl e \<Rightarrow> (Inl e, w)
         | Inr uid \<Rightarrow>
             (Inr (),
              icinga (DeleteServicesByFilter
                        (''service.vars.kubernetes.metadata.uid=='' @ [CHR 0x22] @
                         to_string uid @ [CHR 0x22])) w)))"

text \<open>The \<open>data\<close> callback of \<open>Volume.kubeListener\<close> and the watch loop over a stream.\<close>

definition volume_on_data :: "helpers \<Rightarrow> options \<Rightarrow> event \<Rightarrow> world \<Rightarrow> world" where
  "volume_on_data h opts ev w =
     handleResource ''PersistentVolume'' ev opts (volume_prepareObject h opts)
       (volume_deleteObject h opts) w"

definition volume_watch :: "helpers \<Rightarrow> options \<Rightarrow> event list \<Rightarrow> world \<Rightarrow> world" where
  "volume_watch h opts evs w = foldl (\<lambda>w ev. volume_on_data h opts ev w) w evs"

section \<open>Ingress translator (src/kube/ingress.ts)\<close>

text \<open>The object literal \<open>definition\<close> of \<open>Ingress.applyHost\<close>.\<close>

definition ingress_host :: "json \<Rightarrow> json \<Rightarrow> json \<Rightarrow> (string \<times> json) list" where
  "ingress_host name address metadata =
     [(''display_name'', name),
      (''address'', address),
      (''check_command'', JStr ''dummy''),
      (''vars.dummy_state'', JNum 0),
      (''vars._kubernetes'', JBool True),
      (''vars.kubernetes'', metadata)]"

text \<open>
  \<open>Ingress.applyHost\<close>: a dummy-check host, overridden by \<open>hostDefinition\<close>. The templates
  applied are \<open>this.options.hostTemplates\<close>, not the parameter.
\<close>

definition ingress_applyHost ::
  "options \<Rightarrow> json \<Rightarrow> json \<Rightarrow> json \<Rightarrow> string list \<Rightarrow> world \<Rightarrow> world" where
  "ingress_applyHost opts name address metadata templates w =
     icinga (ApplyHost name (assign (ingress_host name address metadata) (hostDefinition opts))
               (hostTemplates opts)) w"

text \<open>\<open>Ingress.applyService\<close>: once per worker node, or once on the given host.\<close>

definition ingress_applyService ::
  "options \<Rightarrow> json \<Rightarrow> string \<Rightarrow> (string \<times> json) list \<Rightarrow> string list \<Rightarrow> world \<Rightarrow>
   (string \<times> json) list \<times> world" where
  "ingress_applyService opts host name definition templates w =
     (if attachToNodes opts then attach_nodes name templates (getWorkerNodes w) definition w
      else (let definition' = set_prop definition ''host_name'' host
            in (definition', icinga (ApplyService host name definition' templates) w)))"

text \<open>
  The object literal \<open>addition\<close> of \<open>Ingress.prepareObject\<close> (lines 98 to 108) for a rule
  host, a path and the namespace of the ingress \<open>d\<close>.
\<close>

definition ingress_addition :: "json \<Rightarrow> json \<Rightarrow> json \<Rightarrow> json \<Rightarrow> (string \<times> json) list" where
  "ingress_addition d host base ns =
     [(''check_command'', JStr ''http''),
      (''display_name'', JStr (to_string host @ to_string base @ '':http'')),
      (''vars._kubernetes'', JBool True),
      (''vars.kubernetes'', d),
      (''vars.http_address'', host),
      (''vars.http_vhost'', host),
      (''vars.http_path'', base),
      (''vars.http_ignore_body'', JBool True),
      (''groups'', JArr [ns])]"

text \<open>
  The two assignments that turn the object applied as http service into the https one
  (lines 117 and 118): \<open>addition.display_name += 's'\<close> and
  \<open>addition['vars.http_ssl'] = true\<close>.
\<close>

definition ingress_https :: "(string \<times> json) list \<Rightarrow> (string \<times> json) list" where
  "ingress_https addition =
     set_prop
       (set_prop addition ''display_name''
          (JStr (to_string (case map_of addition ''display_name'' of
                              Some v \<Rightarrow> v | None \<Rightarrow> JUndefined) @ ''s'')))
       ''vars.http_ssl'' (JBool True)"

text \<open>
  The body of the inner loop of \<open>Ingress.prepareObject\<close> (lines 96 to 120) for the rule
  \<open>spec\<close> and one of its paths \<open>p\<close>: the http service, and with \<open>definition.spec.tls\<close>
  truthy the https service, which is the same object with \<open>s\<close> added to its
  \<open>display_name\<close> and \<open>vars.http_ssl\<close> set. \<open>ns\<close> is \<open>definition.metadata.namespace\<close>.
\<close>

definition ingress_path ::
  "helpers \<Rightarrow> options \<Rightarrow> json \<Rightarrow> json \<Rightarrow> json \<Rightarrow> (string \<times> json) list \<Rightarrow> string list \<Rightarrow>
   json \<Rightarrow> json \<Rightarrow> world \<Rightarrow> (error + unit) \<times> world" where
  "ingress_path h opts d ns hostname service templates spec p w =
     (case get_prop p ''path'' of
        Inl e \<Rightarrow> (Inl e, w)
      | Inr pp \<Rightarrow>
          (case get_prop spec ''host'' of
             Inl e \<Rightarrow> (Inl e, w)
           | Inr host \<Rightarrow>
               (let base = (if truthy pp then pp else JStr ''/'');
                    name = escapeName h (array_join ''-'' [host, JStr ''http'', base]);
                    addition = assign (assign (ingress_addition d host base ns)
                                         (serviceDefinition opts)) service;
                    (addition1, w1) = ingress_applyService opts hostname name addition
                                        templates w
                in (case path d [''spec'', ''tls''] of
                      Inl e \<Rightarrow> (Inl e, w1)
                    | Inr tls \<Rightarrow>
                        if truthy tls then
                          (let name' = escapeName h
                                         (array_join ''-'' [host, JStr ''https'', base])
                           in (Inr (),
                               snd (ingress_applyService opts hostname name'
                                      (ingress_https addition1) templates w1)))
                        else (Inr (), w1)))))"

text \<open>The inner loop, over the paths of one rule.\<close>

fun ingress_paths ::
  "helpers \<Rightarrow> options \<Rightarrow> json \<Rightarrow> json \<Rightarrow> json \<Rightarrow> (string \<times> json) list \<Rightarrow> string list \<Rightarrow>
   json \<Rightarrow> json list \<Rightarrow> world \<Rightarrow> (error + unit) \<times> world" where
  "ingress_paths h opts d ns hostname service templates spec [] w = (Inr (), w)"
| "ingress_paths h opts d ns hostname service templates spec (p # ps) w =
     (case ingress_path h opts d ns hostname service templates spec p w of
        (Inl e, w1) \<Rightarrow> (Inl e, w1)
      | (Inr u, w1) \<Rightarrow> ingress_paths h opts d ns hostname service templates spec ps w1)"

text \<open>The outer loop, over the rules: \<open>spec.http.paths\<close> is read and iterated for each.\<close>

fun ingress_rules ::
  "helpers \<Rightarrow> options \<Rightarrow> json \<Rightarrow> json \<Rightarrow> json \<Rightarrow> (string \<times> json) list \<Rightarrow> string list \<Rightarrow>
   json list \<Rightarrow> world \<Rightarrow> (error + unit) \<times> world" where
  "ingress_rules h opts d ns hostname service templates [] w = (Inr (), w)"
| "ingress_rules h opts d ns hostname service templates (spec # specs) w =
     (case path spec [''http'', ''paths''] of
        Inl e \<Rightarrow> (Inl e, w)
      | Inr ps \<Rightarrow>
          (case iterate ps of
             Inl e \<Rightarrow> (Inl e, w)
           | Inr paths \<Rightarrow>
               (case ingress_paths h opts d ns hostname service templates spec paths w of
                  (Inl e, w1) \<Rightarrow> (Inl e, w1)
                | (Inr u, w1) \<Rightarrow>
                    ingress_rules h opts d ns hostname service templates specs w1)))"

text \<open>
  \<open>Ingress.prepareObject\<close>: the host named by the escaped join of \<open>ingress\<close>, the
  namespace and the name (unless services attach to nodes), then under \<open>applyServices\<close>
  the service group of the namespace and the services of every rule and path.
\<close>

definition ingress_prepareObject ::
  "helpers \<Rightarrow> options \<Rightarrow> json \<Rightarrow> world \<Rightarrow> (error + unit) \<times> world" where
  "ingress_prepareObject h opts d w =
     (case path d [''metadata'', ''namespace''] of
        Inl e \<Rightarrow> (Inl e, w)
      | Inr ns \<Rightarrow>
          (case path d [''metadata'', ''name''] of
             Inl e \<Rightarrow> (Inl e, w)
           | Inr name \<Rightarrow>
               (let hostname = JStr (escapeName h
                                 (array_join ''-'' [JStr ''ingress'', ns, name]));
                    w1 = (if \<not> attachToNodes opts
                          then ingress_applyHost opts hostname name d (hostTemplates opts) w
                          else w);
                    service = prepareResource h d;
                    templates = serviceTemplates opts @ prepareTemplates h d
                in if applyServices opts then
                     (let w2 = icinga (ApplyServiceGroup ns None) w1
                      in (case path d [''spec'', ''rules''] of
                            Inl e \<Rightarrow> (Inl e, w2)
                          | Inr rules \<Rightarrow>
                              (case iterate rules of
                                 Inl e \<Rightarrow> (Inl e, w2)
                               | Inr specs \<Rightarrow>
                                   ingress_rules h opts d ns hostname service templates
                                     specs w2)))
                   else (Inr (), w1))))"

text \<open>
  The \<open>data\<close> callback of \<open>Ingress.kubeListener\<close> (lines 133 to 150): an object of
  another kind is skipped; MODIFIED and DELETED delete the host named
  \<open>object.object.metadata.name\<close>; ADDED and MODIFIED then call \<open>prepareObject\<close>, whose
  failure is caught. A failure of the callback itself is its result.
\<close>

definition ingress_on_data ::
  "helpers \<Rightarrow> options \<Rightarrow> event \<Rightarrow> world \<Rightarrow> (error + unit) \<times> world" where
  "ingress_on_data h opts ev w =
     (case path (ev_object ev) [''kind''] of
        Inl e \<Rightarrow> (Inl e, w)
      | Inr k \<Rightarrow>
          if k \<noteq> JStr ''Ingress'' then (Inr (), w)
          else
            (case (if ev_type ev = ''MODIFIED'' \<or> ev_type ev = ''DELETED'' then
                     (case path (ev_object ev) [''metadata'', ''name''] of
                        Inl e \<Rightarrow> (Inl e, w)
                      | Inr name \<Rightarrow> (Inr (), icinga (DeleteHost name) w))
                   else (Inr (), w)) of
               (Inl e, w1) \<Rightarrow> (Inl e, w1)
             | (Inr u, w1) \<Rightarrow>
                 if ev_type ev = ''ADDED'' \<or> ev_type ev = ''MODIFIED''
                 then (Inr (), snd (ingress_prepareObject h opts (ev_object ev) w1))
                 else (Inr (), w1)))"

text \<open>The Ingress watch loop over the events of a stream; a failed callback ends nothing.\<close>

definition ingress_watch :: "helpers \<Rightarrow> options \<Rightarrow> event list \<Rightarrow> world \<Rightarrow> world" where
  "ingress_watch h opts evs w = foldl (\<lambda>w ev. snd (ingress_on_data h opts ev w)) w evs"

section \<open>Default options and example objects\<close>

text \<open>
  The \<open>DefaultOptions\<close> of node.ts and of volume.ts and the initial \<open>options\<close> field of
  ingress.ts. A field that a translator's options do not have is never read by that
  translator. \<open>plain_helpers\<close> are helpers that change nothing: the name is escaped to
  itself and the annotations add no template and no override.
\<close>

definition plain_helpers :: helpers where
  "plain_helpers =
     \<lparr>escapeName = (\<lambda>s. s), prepareTemplates = (\<lambda>d. []), prepareResource = (\<lambda>d. [])\<rparr>"

definition node_DefaultOptions :: options where
  "node_DefaultOptions =
     \<lparr>discover = True, applyServices = False, attachToNodes = False, hostName = None,
      hostDefinition = [], serviceDefinition = [], serviceGroupDefinition = [],
      hostTemplates = [], serviceTemplates = []\<rparr>"

definition volume_DefaultOptions :: options where
  "volume_DefaultOptions =
     \<lparr>discover = True, applyServices = True, attachToNodes = False,
      hostName = Some ''kubernetes-volumes'',
      hostDefinition = [], serviceDefinition = [], serviceGroupDefinition = [],
      hostTemplates = [], serviceTemplates = []\<rparr>"

definition ingress_options :: options where
  "ingress_options =
     \<lparr>discover = True, applyServices = True, attachToNodes = False, hostName = None,
      hostDefinition = [], serviceDefinition = [], serviceGroupDefinition = [],
      hostTemplates = [], serviceTemplates = []\<rparr>"

definition empty_world :: world where
  "empty_world = \<lparr>calls = [], nodes = []\<rparr>"

text \<open>
  Objects as the watch streams deliver them: a schedulable and a cordoned node, an
  ingress with one rule, two paths and TLS, a bound volume, a volume whose host
  annotation is empty, an unbound volume (no \<open>claimRef\<close>), a volume without a name, and
  an ingress with TLS whose first rule names a host only and whose second rule has two
  paths.
\<close>

definition worker_node :: json where
  "worker_node =
     JObj [(''kind'', JStr ''Node''),
           (''metadata'', JObj [(''name'', JStr ''worker-1'')]),
           (''spec'', JObj [])]"

definition cordoned_node :: json where
  "cordoned_node =
     JObj [(''kind'', JStr ''Node''),
           (''metadata'', JObj [(''name'', JStr ''worker-2'')]),
           (''spec'', JObj [(''unschedulable'', JBool True)])]"

definition example_ingress :: json where
  "example_ingress =
     JObj [(''kind'', JStr ''Ingress''),
           (''metadata'', JObj [(''name'', JStr ''web''), (''namespace'', JStr ''shop'')]),
           (''spec'',
            JObj [(''rules'',
                   JArr [JObj [(''host'', JStr ''shop.example.org''),
                               (''http'',
                                JObj [(''paths'',
                                       JArr [JObj [(''path'', JStr ''/'')],
                                             JObj [(''path'', JStr ''/api'')]])])]]),
                  (''tls'', JArr [JObj [(''secretName'', JStr ''shop-tls'')]])])]"

definition example_volume :: json where
  "example_volume =
     JObj [(''kind'', JStr ''PersistentVolume''),
           (''metadata'', JObj [(''name'', JStr ''data-1''), (''uid'', JStr ''uid-1'')]),
           (''spec'', JObj [(''claimRef'', JObj [(''namespace'', JStr ''shop'')])])]"

definition blank_host_volume :: json where
  "blank_host_volume =
     JObj [(''kind'', JStr ''PersistentVolume''),
           (''metadata'',
            JObj [(''name'', JStr ''data-2''), (''uid'', JStr ''uid-2''),
                  (''annotations'', JObj [(''kube-icinga/host'', JStr [])])]),
           (''spec'', JObj [(''claimRef'', JObj [(''namespace'', JStr ''shop'')])])]"

definition unclaimed_volume :: json where
  "unclaimed_volume =
     JObj [(''kind'', JStr ''PersistentVolume''),
           (''metadata'', JObj [(''name'', JStr ''data-3''), (''uid'', JStr ''uid-3'')]),
           (''spec'', JObj [(''capacity'', JObj [(''storage'', JStr ''1Gi'')])])]"

definition nameless_volume :: json where
  "nameless_volume =
     JObj [(''kind'', JStr ''PersistentVolume''),
           (''metadata'', JObj [(''uid'', JStr ''uid-4'')]),
           (''spec'', JObj [(''claimRef'', JObj [(''namespace'', JStr ''shop'')])])]"

definition host_only_ingress :: json where
  "host_only_ingress =
     JObj [(''kind'', JStr ''Ingress''),
           (''metadata'', JObj [(''name'', JStr ''web''), (''namespace'', JStr ''shop'')]),
           (''spec'',
            JObj [(''rules'',
                   JArr [JObj [(''host'', JStr ''static.example.org'')],
                         JObj [(''host'', JStr ''shop.example.org''),
                               (''http'',
                                JObj [(''paths'',
                                       JArr [JObj [(''path'', JStr ''/'')],
                                             JObj [(''path'', JStr ''/api'')]])])]]),
                  (''tls'', JArr [JObj [(''secretName'', JStr ''shop-tls'')]])])]"

section \<open>Vocabulary of the properties\<close>

text \<open>
  A later world extends an earlier one when it holds the earlier requests followed by new
  ones and the same worker registry.
\<close>

definition extends :: "world \<Rightarrow> world \<Rightarrow> bool" where
  "extends w w' = ((\<exists>cs. calls w' = calls w @ cs) \<and> nodes w' = nodes w)"

text \<open>The number of \<open>applyService\<close> and of \<open>applyHost\<close> requests a world holds.\<close>

fun is_ApplyService :: "icinga_call \<Rightarrow> bool" where
  "is_ApplyService (ApplyService host name definition templates) = True"
| "is_ApplyService (ApplyHost name definition templates) = False"
| "is_ApplyService (ApplyServiceGroup name definition) = False"
| "is_ApplyService (DeleteHost name) = False"
| "is_ApplyService (DeleteServicesByFilter f) = False"

fun is_ApplyHost :: "icinga_call \<Rightarrow> bool" where
  "is_ApplyHost (ApplyHost name definition templates) = True"
| "is_ApplyHost (ApplyService host name definition templates) = False"
| "is_ApplyHost (ApplyServiceGroup name definition) = False"
| "is_ApplyHost (DeleteHost name) = False"
| "is_ApplyHost (DeleteServicesByFilter f) = False"

definition services_applied :: "world \<Rightarrow> nat" where
  "services_applied w = length (filter is_ApplyService (calls w))"

definition hosts_applied :: "world \<Rightarrow> nat" where
  "hosts_applied w = length (filter is_ApplyHost (calls w))"

text \<open>The deletions a world holds: the \<open>deleteHost\<close> and \<open>deleteServicesByFilter\<close> requests.\<close>

fun is_delete :: "icinga_call \<Rightarrow> bool" where
  "is_delete (DeleteHost name) = True"
| "is_delete (DeleteServicesByFilter f) = True"
| "is_delete (ApplyHost name definition templates) = False"
| "is_delete (ApplyService host name definition templates) = False"
| "is_delete (ApplyServiceGroup name definition) = False"

definition deletes_requested :: "world \<Rightarrow> icinga_call list" where
  "deletes_requested w = filter is_delete (calls w)"

text \<open>
  The rule-path pairs of an ingress: the paths the inner loop of \<open>Ingress.prepareObject\<close>
  visits for a rule, and the pairs the two loops visit for an object. What cannot be
  read or iterated contributes no pair.
\<close>

definition rule_paths :: "json \<Rightarrow> json list" where
  "rule_paths spec =
     (case path spec [''http'', ''paths''] of
        Inl e \<Rightarrow> []
      | Inr ps \<Rightarrow> (case iterate ps of Inl e \<Rightarrow> [] | Inr paths \<Rightarrow> paths))"

definition rule_path_pairs :: "json \<Rightarrow> (json \<times> json) list" where
  "rule_path_pairs d =
     (case path d [''spec'', ''rules''] of
        Inl e \<Rightarrow> []
      | Inr rules \<Rightarrow>
          (case iterate rules of
             Inl e \<Rightarrow> []
           | Inr specs \<Rightarrow> concat (map (\<lambda>spec. map (Pair spec) (rule_paths spec)) specs)))"

text \<open>
  The precedence of section 4.2 of the spec, in the spec's words: the computed fields are
  seeded first, the configured override is merged on top, and the annotation override is
  merged last and wins over both. It is what the merges of the source are compared with.
\<close>

definition precedence ::
  "(string \<times> json) list \<Rightarrow> (string \<times> json) list \<Rightarrow> (string \<times> json) list \<Rightarrow> string \<Rightarrow>
   json option" where
  "precedence computed configured annotated k =
     (case map_of annotated k of
        Some v \<Rightarrow> Some v
      | None \<Rightarrow> (case map_of configured k of Some v \<Rightarrow> Some v | None \<Rightarrow> map_of computed k))"

text \<open>The value a request's definition holds for a key, if the request has a definition.\<close>

fun applied_field :: "string \<Rightarrow> icinga_call \<Rightarrow> json option" where
  "applied_field k (ApplyHost name definition templates) = map_of definition k"
| "applied_field k (ApplyService host name definition templates) = map_of definition k"
| "applied_field k (ApplyServiceGroup name None) = None"
| "applied_field k (ApplyServiceGroup name (Some definition)) = map_of definition k"
| "applied_field k (DeleteHost name) = None"
| "applied_field k (DeleteServicesByFilter f) = None"

section \<open>Objects and requests\<close>

lemma map_of_set_prop: "map_of (set_prop t k v) = (map_of t)(k \<mapsto> v)"
  by (induction t k v rule: set_prop.induct) auto

lemma map_of_own_entries:
  "map_of (own_entries seen s) k = (if k \<in> set seen then None else map_of s k)"
  by (induction seen s rule: own_entries.induct) auto

lemma own_entries_keys: "fst ` set (own_entries seen s) \<inter> set seen = {}"
  by (induction seen s rule: own_entries.induct) auto

lemma own_entries_distinct: "distinct (map fst (own_entries seen s))"
proof (induction seen s rule: own_entries.induct)
  case (1 seen)
  show ?case by simp
next
  case (2 seen k v kvs)
  show ?case
  proof (cases "k \<in> set seen")
    case True
    with 2 show ?thesis by simp
  next
    case False
    have "k \<notin> fst ` set (own_entries (k # seen) kvs)"
      using own_entries_keys [of "k # seen" kvs] by auto
    with False 2 show ?thesis by simp
  qed
qed

lemma map_of_foldl_set_prop:
  "distinct (map fst xs) \<Longrightarrow>
   map_of (foldl (\<lambda>t (k, v). set_prop t k v) t xs) = map_of t ++ map_of xs"
proof (induction xs arbitrary: t)
  case Nil
  show ?case by simp
next
  case (Cons x xs)
  obtain k v where x: "x = (k, v)" by (cases x)
  from Cons.prems x have k: "k \<notin> fst ` set xs" and d: "distinct (map fst xs)" by auto
  have n: "map_of xs k = None" using k by (simp add: map_of_eq_None_iff)
  have e: "(map_of t)(k \<mapsto> v) ++ map_of xs = map_of t ++ map_of (x # xs)"
  proof (rule ext)
    fix a
    show "((map_of t)(k \<mapsto> v) ++ map_of xs) a = (map_of t ++ map_of (x # xs)) a"
      using n x by (cases "a = k") (auto simp: map_add_def split: option.splits)
  qed
  have "map_of (foldl (\<lambda>t (k, v). set_prop t k v) t (x # xs)) =
      map_of (set_prop t k v) ++ map_of xs"
    using Cons.IH [OF d] x by simp
  then show ?case using e by (simp only: map_of_set_prop)
qed

lemma map_of_assign: "map_of (assign t s) = map_of t ++ map_of s"
proof -
  have "map_of (own_entries [] s) = map_of s"
    by (rule ext) (simp add: map_of_own_entries)
  then show ?thesis
    by (simp add: assign_def map_of_foldl_set_prop own_entries_distinct)
qed

lemma map_of_assign_key:
  "map_of (assign t s) k = (case map_of s k of Some v \<Rightarrow> Some v | None \<Rightarrow> map_of t k)"
  by (simp add: map_of_assign map_add_def)

lemma assign_empty: "assign t [] = t"
  by (simp add: assign_def)

lemma icinga_nodes: "nodes (icinga c w) = nodes w"
  by (simp add: icinga_def)

lemma icinga_calls: "calls (icinga c w) = calls w @ [c]"
  by (simp add: icinga_def)

section \<open>The Node translator\<close>

lemma node_prepareObject_nodes:
  "getWorkerNodes (snd (node_prepareObject opts d w)) =
     (case path d [''metadata'', ''name''] of
        Inl e \<Rightarrow> getWorkerNodes w
      | Inr name \<Rightarrow>
          (case path d [''spec'', ''unschedulable''] of
             Inl e \<Rightarrow> getWorkerNodes w
           | Inr u \<Rightarrow> if truthy u then getWorkerNodes w else getWorkerNodes w @ [name]))"
  by (simp add: node_prepareObject_def getWorkerNodes_def icinga_nodes Let_def split: sum.splits)

lemma node_deleteObject_nodes:
  "getWorkerNodes (snd (node_deleteObject d w)) = getWorkerNodes w"
  by (simp add: node_deleteObject_def getWorkerNodes_def icinga_nodes split: sum.splits)

lemma node_on_data_grows:
  "\<exists>ys. getWorkerNodes (node_on_data opts ev w) = getWorkerNodes w @ ys"
  by (simp add: node_on_data_def handleResource_def node_prepareObject_nodes
      node_deleteObject_nodes split: sum.splits)

lemma node_watch_grows:
  "\<exists>ys. getWorkerNodes (node_watch opts evs w) = getWorkerNodes w @ ys"
proof (induction evs arbitrary: w)
  case Nil
  show ?case by (simp add: node_watch_def)
next
  case (Cons ev evs)
  obtain ys where ys: "getWorkerNodes (node_on_data opts ev w) = getWorkerNodes w @ ys"
    using node_on_data_grows by blast
  obtain zs where zs: "getWorkerNodes (node_watch opts evs (node_on_data opts ev w)) =
      getWorkerNodes (node_on_data opts ev w) @ zs"
    using Cons.IH by blast
  have "node_watch opts (ev # evs) w = node_watch opts evs (node_on_data opts ev w)"
    by (simp add: node_watch_def)
  with ys zs show ?case by simp
qed

lemma node_prepareObject_ok:
  "path d [''metadata'', ''name''] = Inr name \<Longrightarrow>
   path d [''spec'', ''unschedulable''] = Inr u \<Longrightarrow>
   node_prepareObject opts d w =
     (Inr (),
      icinga (ApplyHost name (assign (node_host name d) (hostDefinition opts)) (hostTemplates opts))
        (if truthy u then w else w\<lparr>nodes := nodes w @ [name]\<rparr>))"
  by (simp add: node_prepareObject_def Let_def)

lemma calls_nodes_update: "calls (w\<lparr>nodes := ns\<rparr>) = calls w"
  by simp

text \<open>
  C2 (as amended). The listener ignores a MODIFIED Node event: nothing is requested. For
  a node with \<open>metadata\<close> and \<open>spec\<close>, \<open>prepareObject\<close> succeeds and requests exactly one
  \<open>applyHost\<close> under the node's name, schedulable or not, and so does an ADDED event for
  it when discovery is on. The definition applied is the host built from the object
  overridden by \<open>hostDefinition\<close>: its \<open>check_command\<close> is \<open>ping\<close> and its
  \<open>vars.kubernetes\<close> is the full decoded object unless \<open>hostDefinition\<close> sets those keys.
\<close>

theorem node_added_applies_host:
  "(ev_type ev = ''MODIFIED'' \<longrightarrow> node_on_data opts ev w = w) \<and>
   (path d [''metadata'', ''name''] = Inr name \<and> path d [''spec'', ''unschedulable''] = Inr u \<longrightarrow>
      fst (node_prepareObject opts d w) = Inr () \<and>
      calls (snd (node_prepareObject opts d w)) =
        calls w @ [ApplyHost name (assign (node_host name d) (hostDefinition opts))
                     (hostTemplates opts)]) \<and>
   (ev_type ev = ''ADDED'' \<and> path (ev_object ev) [''kind''] = Inr (JStr ''Node'') \<and>
    discover opts \<and> path (ev_object ev) [''metadata'', ''name''] = Inr name \<and>
    path (ev_object ev) [''spec'', ''unschedulable''] = Inr u \<longrightarrow>
      calls (node_on_data opts ev w) =
        calls w @ [ApplyHost name (assign (node_host name (ev_object ev)) (hostDefinition opts))
                     (hostTemplates opts)]) \<and>
   map_of (assign (node_host name d) (hostDefinition opts)) ''check_command'' =
     (case map_of (hostDefinition opts) ''check_command'' of
        Some v \<Rightarrow> Some v | None \<Rightarrow> Some (JStr ''ping'')) \<and>
   map_of (assign (node_host name d) (hostDefinition opts)) ''vars.kubernetes'' =
     (case map_of (hostDefinition opts) ''vars.kubernetes'' of
        Some v \<Rightarrow> Some v | None \<Rightarrow> Some d)"
proof (intro conjI impI)
  assume "ev_type ev = ''MODIFIED''"
  then show "node_on_data opts ev w = w" by (simp add: node_on_data_def)
next
  assume a: "path d [''metadata'', ''name''] = Inr name \<and>
      path d [''spec'', ''unschedulable''] = Inr u"
  then show "fst (node_prepareObject opts d w) = Inr ()"
    by (simp add: node_prepareObject_ok)
  from a show "calls (snd (node_prepareObject opts d w)) =
      calls w @ [ApplyHost name (assign (node_host name d) (hostDefinition opts))
                   (hostTemplates opts)]"
    by (simp add: node_prepareObject_ok icinga_calls)
next
  assume a: "ev_type ev = ''ADDED'' \<and> path (ev_object ev) [''kind''] = Inr (JStr ''Node'') \<and>
    discover opts \<and> path (ev_object ev) [''metadata'', ''name''] = Inr name \<and>
    path (ev_object ev) [''spec'', ''unschedulable''] = Inr u"
  then have "node_on_data opts ev w = snd (node_prepareObject opts (ev_object ev) w)"
    by (simp add: node_on_data_def handleResource_def)
  with a show "calls (node_on_data opts ev w) =
      calls w @ [ApplyHost name (assign (node_host name (ev_object ev)) (hostDefinition opts))
                   (hostTemplates opts)]"
    by (simp add: node_prepareObject_ok icinga_calls)
next
  show "map_of (assign (node_host name d) (hostDefinition opts)) ''check_command'' =
     (case map_of (hostDefinition opts) ''check_command'' of
        Some v \<Rightarrow> Some v | None \<Rightarrow> Some (JStr ''ping''))"
    by (simp add: map_of_assign_key node_host_def split: option.splits)
next
  show "map_of (assign (node_host name d) (hostDefinition opts)) ''vars.kubernetes'' =
     (case map_of (hostDefinition opts) ''vars.kubernetes'' of
        Some v \<Rightarrow> Some v | None \<Rightarrow> Some d)"
    by (simp add: map_of_assign_key node_host_def split: option.splits)
qed

text \<open>
  The claim as written fails at a MODIFIED event for a worker node, which requests
  nothing, and at a \<open>hostDefinition\<close> that sets \<open>check_command\<close>, which replaces \<open>ping\<close>.
\<close>

theorem node_modified_counterexample:
  "calls (node_on_data node_DefaultOptions \<lparr>ev_type = ''MODIFIED'', ev_object = worker_node\<rparr>
            empty_world) = [] \<and>
   calls (node_on_data (node_DefaultOptions\<lparr>hostDefinition := [(''check_command'', JStr ''hostalive'')]\<rparr>)
            \<lparr>ev_type = ''ADDED'', ev_object = worker_node\<rparr> empty_world) =
     [ApplyHost (JStr ''worker-1'')
        [(''display_name'', JStr ''worker-1''), (''address'', JStr ''worker-1''),
         (''vars._kubernetes'', JBool True), (''vars.kubernetes'', worker_node),
         (''check_command'', JStr ''hostalive'')] []]"
  by (simp add: node_on_data_def handleResource_def node_prepareObject_def node_DefaultOptions_def
      empty_world_def worker_node_def icinga_def assign_def node_host_def)

theorem node_added_applies_host_witness:
  "ev_type \<lparr>ev_type = ''MODIFIED'', ev_object = worker_node\<rparr> = ''MODIFIED'' \<and>
   node_on_data node_DefaultOptions \<lparr>ev_type = ''MODIFIED'', ev_object = worker_node\<rparr> empty_world
     = empty_world \<and>
   path cordoned_node [''metadata'', ''name''] = Inr (JStr ''worker-2'') \<and>
   path cordoned_node [''spec'', ''unschedulable''] = Inr (JBool True) \<and>
   calls (snd (node_prepareObject node_DefaultOptions cordoned_node empty_world)) =
     [ApplyHost (JStr ''worker-2'') (node_host (JStr ''worker-2'') cordoned_node) []] \<and>
   calls (node_on_data node_DefaultOptions \<lparr>ev_type = ''ADDED'', ev_object = cordoned_node\<rparr>
            empty_world) =
     [ApplyHost (JStr ''worker-2'') (node_host (JStr ''worker-2'') cordoned_node) []]"
proof -
  have n: "path cordoned_node [''metadata'', ''name''] = Inr (JStr ''worker-2'')"
    and u: "path cordoned_node [''spec'', ''unschedulable''] = Inr (JBool True)"
    and k: "path cordoned_node [''kind''] = Inr (JStr ''Node'')"
    by (simp_all add: cordoned_node_def)
  note t1 = node_added_applies_host [of "\<lparr>ev_type = ''MODIFIED'', ev_object = worker_node\<rparr>"
      node_DefaultOptions empty_world cordoned_node "JStr ''worker-2''" "JBool True"]
  note t2 = node_added_applies_host [of "\<lparr>ev_type = ''ADDED'', ev_object = cordoned_node\<rparr>"
      node_DefaultOptions empty_world cordoned_node "JStr ''worker-2''" "JBool True"]
  have o: "hostDefinition node_DefaultOptions = []" "hostTemplates node_DefaultOptions = []"
      "discover node_DefaultOptions" "calls empty_world = []"
    by (simp_all add: node_DefaultOptions_def empty_world_def)
  show ?thesis using t1 t2 n u k o by (simp add: assign_empty)
qed

section \<open>The Ingress translator\<close>

lemma extends_refl: "extends w w"
  by (simp add: extends_def)

lemma extends_trans: "extends a b \<Longrightarrow> extends b c \<Longrightarrow> extends a c"
  by (auto simp: extends_def)

lemma extends_icinga: "extends w (icinga c w)"
  by (simp add: extends_def icinga_def)

lemma set_prop_twice: "set_prop (set_prop t k a) k b = set_prop t k b"
  by (induction t k a rule: set_prop.induct) auto

lemma attach_nodes_calls:
  "calls (snd (attach_nodes name t ns D w)) =
     calls w @ map (\<lambda>n. ApplyService n name (set_prop D ''host_name'' n) t) ns"
proof (induction ns arbitrary: D w)
  case Nil
  show ?case by simp
next
  case (Cons n ns)
  show ?case by (simp add: Cons.IH Let_def icinga_calls set_prop_twice)
qed

lemma attach_nodes_nodes: "nodes (snd (attach_nodes name t ns D w)) = nodes w"
  by (induction ns arbitrary: D w) (simp_all add: Let_def icinga_nodes)

lemma ingress_applyService_calls:
  "calls (snd (ingress_applyService opts host name D t w)) =
     calls w @ map (\<lambda>n. ApplyService n name (set_prop D ''host_name'' n) t)
                 (if attachToNodes opts then getWorkerNodes w else [host])"
  by (simp add: ingress_applyService_def attach_nodes_calls Let_def icinga_calls)

lemma ingress_applyService_nodes:
  "nodes (snd (ingress_applyService opts host name D t w)) = nodes w"
  by (simp add: ingress_applyService_def attach_nodes_nodes Let_def icinga_nodes)

lemma ingress_applyService_extends:
  "extends w (snd (ingress_applyService opts host name D t w))"
  by (simp add: extends_def ingress_applyService_calls ingress_applyService_nodes)

lemma ingress_applyService_pair:
  "ingress_applyService opts host name D t w = (D', w') \<Longrightarrow>
   calls w' = calls w @ map (\<lambda>n. ApplyService n name (set_prop D ''host_name'' n) t)
                          (if attachToNodes opts then getWorkerNodes w else [host]) \<and>
   nodes w' = nodes w"
  using ingress_applyService_calls [of opts host name D t w]
    ingress_applyService_nodes [of opts host name D t w] by simp

lemma ingress_path_extends:
  "extends w (snd (ingress_path h opts d ns hostname service templates spec p w))"
  unfolding ingress_path_def
  by (auto simp: Let_def extends_def getWorkerNodes_def ingress_applyService_calls
      ingress_applyService_nodes split: sum.splits prod.splits
      dest!: ingress_applyService_pair)

lemma ingress_paths_extends:
  "extends w (snd (ingress_paths h opts d ns hostname service templates spec ps w))"
proof (induction ps arbitrary: w)
  case Nil
  show ?case by (simp add: extends_refl)
next
  case (Cons p ps)
  obtain r w1 where r: "ingress_path h opts d ns hostname service templates spec p w = (r, w1)"
    by (cases "ingress_path h opts d ns hostname service templates spec p w")
  have e: "extends w w1" using ingress_path_extends [of w h opts d ns hostname service templates spec p] r
    by simp
  show ?case
  proof (cases r)
    case (Inl x)
    with r e show ?thesis by simp
  next
    case (Inr u)
    with r e Cons.IH [of w1] show ?thesis by (auto intro: extends_trans)
  qed
qed

lemma ingress_rules_extends:
  "extends w (snd (ingress_rules h opts d ns hostname service templates specs w))"
proof (induction specs arbitrary: w)
  case Nil
  show ?case by (simp add: extends_refl)
next
  case (Cons spec specs)
  show ?case
  proof (cases "path spec [''http'', ''paths'']")
    case (Inl e)
    then show ?thesis by (simp add: extends_refl)
  next
    case ps: (Inr ps)
    show ?thesis
    proof (cases "iterate ps")
      case (Inl e)
      with ps show ?thesis by (simp add: extends_refl)
    next
      case it: (Inr paths)
      obtain r w1 where r:
        "ingress_paths h opts d ns hostname service templates spec paths w = (r, w1)"
        by (cases "ingress_paths h opts d ns hostname service templates spec paths w")
      have e: "extends w w1"
        using ingress_paths_extends [of w h opts d ns hostname service templates spec paths] r
        by simp
      show ?thesis
      proof (cases r)
        case (Inl x)
        with ps it r e show ?thesis by simp
      next
        case (Inr u)
        with ps it r e Cons.IH [of w1] show ?thesis by (auto intro: extends_trans)
      qed
    qed
  qed
qed

lemma ingress_applyHost_calls:
  "calls (ingress_applyHost opts name address metadata templates w) =
     calls w @ [ApplyHost name (assign (ingress_host name address metadata) (hostDefinition opts))
                  (hostTemplates opts)]"
  by (simp add: ingress_applyHost_def icinga_calls)

lemma ingress_applyHost_nodes:
  "nodes (ingress_applyHost opts name address metadata templates w) = nodes w"
  by (simp add: ingress_applyHost_def icinga_nodes)

lemma ingress_prepareObject_host:
  assumes "path d [''metadata'', ''namespace''] = Inr ns"
    and "path d [''metadata'', ''name''] = Inr name"
    and "\<not> attachToNodes opts"
  shows "\<exists>D cs. calls (snd (ingress_prepareObject h opts d w)) =
           calls w @ ApplyHost (JStr (escapeName h (array_join ''-'' [JStr ''ingress'', ns, name])))
                       D (hostTemplates opts) # cs"
proof -
  define hostname where
    "hostname = JStr (escapeName h (array_join ''-'' [JStr ''ingress'', ns, name]))"
  define w1 where "w1 = ingress_applyHost opts hostname name d (hostTemplates opts) w"
  obtain D where c1: "calls w1 = calls w @ [ApplyHost hostname D (hostTemplates opts)]"
    by (simp add: w1_def ingress_applyHost_calls)
  have "extends w1 (snd (ingress_prepareObject h opts d w))"
    using assms
    by (auto simp: ingress_prepareObject_def Let_def hostname_def w1_def extends_refl
        extends_icinga split: sum.splits
        intro: extends_trans [OF extends_icinga ingress_rules_extends])
  then obtain cs where "calls (snd (ingress_prepareObject h opts d w)) = calls w1 @ cs"
    by (auto simp: extends_def)
  with c1 show ?thesis by (simp add: hostname_def)
qed

lemma ingress_prepareObject_extends:
  "extends w (snd (ingress_prepareObject h opts d w))"
proof -
  have a: "\<And>w0 hn nm. extends w0 (ingress_applyHost opts hn nm d (hostTemplates opts) w0)"
    by (simp add: extends_def ingress_applyHost_calls ingress_applyHost_nodes)
  show ?thesis
    by (auto simp: ingress_prepareObject_def Let_def extends_refl a extends_icinga
        split: sum.splits
        intro: extends_trans [OF a] extends_trans [OF extends_icinga ingress_rules_extends]
          extends_trans [OF a extends_trans [OF extends_icinga ingress_rules_extends]]
          extends_trans [OF a extends_icinga])
qed

text \<open>
  The dispatch of the \<open>data\<close> callback for an event that embeds an Ingress object, when
  the awaited \<open>deleteHost\<close> resolves: MODIFIED is \<open>deleteHost\<close> of \<open>metadata.name\<close> followed
  by \<open>prepareObject\<close>, DELETED is the delete alone, ADDED is \<open>prepareObject\<close> alone, and
  any other type does neither.
\<close>

lemma ingress_dispatch:
  "path (ev_object ev) [''kind''] = Inr (JStr ''Ingress'') \<longrightarrow>
   (ev_type ev = ''ADDED'' \<longrightarrow>
      ingress_on_data h opts ev w =
        (Inr (), snd (ingress_prepareObject h opts (ev_object ev) w))) \<and>
   (ev_type ev = ''MODIFIED'' \<and> path (ev_object ev) [''metadata'', ''name''] = Inr name \<longrightarrow>
      ingress_on_data h opts ev w =
        (Inr (), snd (ingress_prepareObject h opts (ev_object ev) (icinga (DeleteHost name) w))) \<and>
      (\<exists>cs. calls (snd (ingress_on_data h opts ev w)) = calls w @ DeleteHost name # cs)) \<and>
   (ev_type ev = ''DELETED'' \<and> path (ev_object ev) [''metadata'', ''name''] = Inr name \<longrightarrow>
      ingress_on_data h opts ev w = (Inr (), icinga (DeleteHost name) w) \<and>
      calls (snd (ingress_on_data h opts ev w)) = calls w @ [DeleteHost name]) \<and>
   (ev_type ev \<noteq> ''ADDED'' \<and> ev_type ev \<noteq> ''MODIFIED'' \<and> ev_type ev \<noteq> ''DELETED'' \<longrightarrow>
      ingress_on_data h opts ev w = (Inr (), w))"
proof (intro impI conjI)
  assume k: "path (ev_object ev) [''kind''] = Inr (JStr ''Ingress'')"
  {
    assume "ev_type ev = ''ADDED''"
    with k show "ingress_on_data h opts ev w =
        (Inr (), snd (ingress_prepareObject h opts (ev_object ev) w))"
      by (simp add: ingress_on_data_def)
  next
    assume m: "ev_type ev = ''MODIFIED'' \<and> path (ev_object ev) [''metadata'', ''name''] = Inr name"
    with k show e: "ingress_on_data h opts ev w =
        (Inr (), snd (ingress_prepareObject h opts (ev_object ev) (icinga (DeleteHost name) w)))"
      by (simp add: ingress_on_data_def)
    obtain cs where "calls (snd (ingress_prepareObject h opts (ev_object ev)
        (icinga (DeleteHost name) w))) = calls (icinga (DeleteHost name) w) @ cs"
      using ingress_prepareObject_extends [of "icinga (DeleteHost name) w" h opts "ev_object ev"]
      by (auto simp: extends_def)
    with e show "\<exists>cs. calls (snd (ingress_on_data h opts ev w)) = calls w @ DeleteHost name # cs"
      by (simp add: icinga_calls)
  next
    assume "ev_type ev = ''DELETED'' \<and> path (ev_object ev) [''metadata'', ''name''] = Inr name"
    with k show e: "ingress_on_data h opts ev w = (Inr (), icinga (DeleteHost name) w)"
      by (simp add: ingress_on_data_def)
    then show "calls (snd (ingress_on_data h opts ev w)) = calls w @ [DeleteHost name]"
      by (simp add: icinga_calls)
  next
    assume "ev_type ev \<noteq> ''ADDED'' \<and> ev_type ev \<noteq> ''MODIFIED'' \<and> ev_type ev \<noteq> ''DELETED''"
    with k show "ingress_on_data h opts ev w = (Inr (), w)"
      by (simp add: ingress_on_data_def)
  }
qed

lemma array_join_ingress:
  "array_join ''-'' [JStr ''ingress'', ns, JStr n] =
     ''ingress-'' @ (if ns = JUndefined \<or> ns = JNull then [] else to_string ns) @ ''-'' @ n"
  by (simp add: array_join_def)

text \<open>
  C4. On a MODIFIED or DELETED Ingress event the listener passes the raw
  \<open>metadata.name\<close> to \<open>deleteHost\<close>, while \<open>prepareObject\<close> applies the host under the
  escaped join of \<open>ingress\<close>, the namespace and the name. The two differ whenever
  \<open>escapeName\<close> does not shorten that joined name, whatever the namespace is.
\<close>

theorem ingress_delete_name_differs:
  "(ev_type ev = ''MODIFIED'' \<or> ev_type ev = ''DELETED'') \<and>
   path (ev_object ev) [''kind''] = Inr (JStr ''Ingress'') \<and>
   path (ev_object ev) [''metadata'', ''name''] = Inr name \<and>
   path (ev_object ev) [''metadata'', ''namespace''] = Inr ns \<and>
   length (array_join ''-'' [JStr ''ingress'', ns, name]) \<le>
     length (escapeName h (array_join ''-'' [JStr ''ingress'', ns, name])) \<longrightarrow>
   (\<exists>cs. calls (snd (ingress_on_data h opts ev w)) = calls w @ DeleteHost name # cs) \<and>
   (\<not> attachToNodes opts \<longrightarrow>
      (\<exists>D cs. calls (snd (ingress_prepareObject h opts (ev_object ev) w)) =
         calls w @ ApplyHost (JStr (escapeName h (array_join ''-'' [JStr ''ingress'', ns, name])))
                     D (hostTemplates opts) # cs)) \<and>
   name \<noteq> JStr (escapeName h (array_join ''-'' [JStr ''ingress'', ns, name]))"
proof (intro impI)
  assume a: "(ev_type ev = ''MODIFIED'' \<or> ev_type ev = ''DELETED'') \<and>
   path (ev_object ev) [''kind''] = Inr (JStr ''Ingress'') \<and>
   path (ev_object ev) [''metadata'', ''name''] = Inr name \<and>
   path (ev_object ev) [''metadata'', ''namespace''] = Inr ns \<and>
   length (array_join ''-'' [JStr ''ingress'', ns, name]) \<le>
     length (escapeName h (array_join ''-'' [JStr ''ingress'', ns, name]))"
  have del: "\<exists>cs. calls (snd (ingress_on_data h opts ev w)) = calls w @ DeleteHost name # cs"
  proof (cases "ev_type ev = ''MODIFIED''")
    case True
    obtain cs where "calls (snd (ingress_prepareObject h opts (ev_object ev)
        (icinga (DeleteHost name) w))) = calls (icinga (DeleteHost name) w) @ cs"
      using ingress_prepareObject_extends [of "icinga (DeleteHost name) w" h opts "ev_object ev"]
      by (auto simp: extends_def)
    with True a show ?thesis by (simp add: ingress_on_data_def icinga_calls)
  next
    case False
    with a show ?thesis by (simp add: ingress_on_data_def icinga_calls)
  qed
  have host: "\<not> attachToNodes opts \<longrightarrow>
      (\<exists>D cs. calls (snd (ingress_prepareObject h opts (ev_object ev) w)) =
         calls w @ ApplyHost (JStr (escapeName h (array_join ''-'' [JStr ''ingress'', ns, name])))
                     D (hostTemplates opts) # cs)"
    using a ingress_prepareObject_host [of "ev_object ev" ns name opts h w] by blast
  have ne: "name \<noteq> JStr (escapeName h (array_join ''-'' [JStr ''ingress'', ns, name]))"
  proof
    assume e: "name = JStr (escapeName h (array_join ''-'' [JStr ''ingress'', ns, name]))"
    define n where "n = escapeName h (array_join ''-'' [JStr ''ingress'', ns, name])"
    have nm: "name = JStr n" using e by (simp add: n_def)
    have "length n < length (array_join ''-'' [JStr ''ingress'', ns, name])"
      unfolding nm array_join_ingress by simp
    moreover have "length (array_join ''-'' [JStr ''ingress'', ns, name]) \<le> length n"
      using a by (simp add: n_def)
    ultimately show False by simp
  qed
  from del host ne show "(\<exists>cs. calls (snd (ingress_on_data h opts ev w)) = calls w @ DeleteHost name # cs) \<and>
   (\<not> attachToNodes opts \<longrightarrow>
      (\<exists>D cs. calls (snd (ingress_prepareObject h opts (ev_object ev) w)) =
         calls w @ ApplyHost (JStr (escapeName h (array_join ''-'' [JStr ''ingress'', ns, name])))
                     D (hostTemplates opts) # cs)) \<and>
   name \<noteq> JStr (escapeName h (array_join ''-'' [JStr ''ingress'', ns, name]))"
    by blast
qed

lemma ingress_dispatch_example:
  "path example_ingress [''kind''] = Inr (JStr ''Ingress'') \<and>
   path example_ingress [''metadata'', ''name''] = Inr (JStr ''web'') \<and>
   ingress_on_data plain_helpers ingress_options
       \<lparr>ev_type = ''ADDED'', ev_object = example_ingress\<rparr> empty_world =
     (Inr (), snd (ingress_prepareObject plain_helpers ingress_options example_ingress
                     empty_world)) \<and>
   ingress_on_data plain_helpers ingress_options
       \<lparr>ev_type = ''MODIFIED'', ev_object = example_ingress\<rparr> empty_world =
     (Inr (), snd (ingress_prepareObject plain_helpers ingress_options example_ingress
                     (icinga (DeleteHost (JStr ''web'')) empty_world))) \<and>
   ingress_on_data plain_helpers ingress_options
       \<lparr>ev_type = ''DELETED'', ev_object = example_ingress\<rparr> empty_world =
     (Inr (), icinga (DeleteHost (JStr ''web'')) empty_world) \<and>
   ingress_on_data plain_helpers ingress_options
       \<lparr>ev_type = ''BOOKMARK'', ev_object = example_ingress\<rparr> empty_world =
     (Inr (), empty_world)"
proof -
  have k: "path example_ingress [''kind''] = Inr (JStr ''Ingress'')"
    and n: "path example_ingress [''metadata'', ''name''] = Inr (JStr ''web'')"
    by (simp_all add: example_ingress_def)
  note a = ingress_dispatch [where ev = "\<lparr>ev_type = ''ADDED'', ev_object = example_ingress\<rparr>"
      and h = plain_helpers and opts = ingress_options and w = empty_world]
  note m = ingress_dispatch [where ev = "\<lparr>ev_type = ''MODIFIED'', ev_object = example_ingress\<rparr>"
      and h = plain_helpers and opts = ingress_options and w = empty_world
      and name = "JStr ''web''"]
  note d = ingress_dispatch [where ev = "\<lparr>ev_type = ''DELETED'', ev_object = example_ingress\<rparr>"
      and h = plain_helpers and opts = ingress_options and w = empty_world
      and name = "JStr ''web''"]
  note b = ingress_dispatch [where ev = "\<lparr>ev_type = ''BOOKMARK'', ev_object = example_ingress\<rparr>"
      and h = plain_helpers and opts = ingress_options and w = empty_world]
  show ?thesis using a m d b k n by simp
qed

theorem ingress_delete_name_differs_witness:
  "path example_ingress [''kind''] = Inr (JStr ''Ingress'') \<and>
   path example_ingress [''metadata'', ''name''] = Inr (JStr ''web'') \<and>
   path example_ingress [''metadata'', ''namespace''] = Inr (JStr ''shop'') \<and>
   escapeName plain_helpers (array_join ''-'' [JStr ''ingress'', JStr ''shop'', JStr ''web'']) =
     ''ingress-shop-web'' \<and>
   (\<exists>cs. calls (snd (ingress_on_data plain_helpers ingress_options
                        \<lparr>ev_type = ''DELETED'', ev_object = example_ingress\<rparr> empty_world)) =
          calls empty_world @ DeleteHost (JStr ''web'') # cs) \<and>
   (\<exists>D cs. calls (snd (ingress_prepareObject plain_helpers ingress_options example_ingress
                          empty_world)) =
          calls empty_world @ ApplyHost (JStr ''ingress-shop-web'') D [] # cs) \<and>
   JStr ''web'' \<noteq> JStr ''ingress-shop-web''"
proof -
  have k: "path example_ingress [''kind''] = Inr (JStr ''Ingress'')"
    and n: "path example_ingress [''metadata'', ''name''] = Inr (JStr ''web'')"
    and s: "path example_ingress [''metadata'', ''namespace''] = Inr (JStr ''shop'')"
    by (simp_all add: example_ingress_def)
  have e: "escapeName plain_helpers
      (array_join ''-'' [JStr ''ingress'', JStr ''shop'', JStr ''web'']) = ''ingress-shop-web''"
    by (simp add: plain_helpers_def array_join_def)
  have o: "\<not> attachToNodes ingress_options" "hostTemplates ingress_options = []"
    by (simp_all add: ingress_options_def)
  have j: "array_join ''-'' [JStr ''ingress'', JStr ''shop'', JStr ''web''] = ''ingress-shop-web''"
    by (simp add: array_join_def)
  note t = ingress_delete_name_differs [where
      ev = "\<lparr>ev_type = ''DELETED'', ev_object = example_ingress\<rparr>"
      and h = plain_helpers and opts = ingress_options and w = empty_world
      and name = "JStr ''web''" and ns = "JStr ''shop''"]
  show ?thesis using t k n s e o j by simp
qed

lemma deletes_icinga:
  "deletes_requested (icinga c w) = deletes_requested w @ (if is_delete c then [c] else [])"
  by (simp add: deletes_requested_def icinga_calls)

lemma deletes_applyService:
  "ingress_applyService opts host name D t w = (D', w') \<Longrightarrow>
   deletes_requested w' = deletes_requested w"
proof -
  assume a: "ingress_applyService opts host name D t w = (D', w')"
  have "filter is_delete (map (\<lambda>n. ApplyService n name (set_prop D ''host_name'' n) t) ns) = []"
    for ns by (induction ns) simp_all
  with ingress_applyService_pair [OF a] show ?thesis
    by (simp add: deletes_requested_def)
qed

lemma deletes_ingress_path:
  "deletes_requested (snd (ingress_path h opts d ns hostname service templates spec p w)) =
     deletes_requested w"
  unfolding ingress_path_def
  by (auto simp: Let_def split: sum.splits prod.splits dest!: deletes_applyService
      simp del: path.simps)
    (metis deletes_applyService prod.collapse)+

lemma deletes_ingress_paths:
  "deletes_requested (snd (ingress_paths h opts d ns hostname service templates spec ps w)) =
     deletes_requested w"
proof (induction ps arbitrary: w)
  case Nil
  show ?case by simp
next
  case (Cons p ps)
  obtain r w1 where r: "ingress_path h opts d ns hostname service templates spec p w = (r, w1)"
    by (cases "ingress_path h opts d ns hostname service templates spec p w")
  have e: "deletes_requested w1 = deletes_requested w"
    using deletes_ingress_path [of h opts d ns hostname service templates spec p w] r by simp
  show ?case
  proof (cases r)
    case (Inl x)
    with r e show ?thesis by simp
  next
    case (Inr u)
    with r e Cons.IH [of w1] show ?thesis by simp
  qed
qed

lemma deletes_ingress_rules:
  "deletes_requested (snd (ingress_rules h opts d ns hostname service templates specs w)) =
     deletes_requested w"
proof (induction specs arbitrary: w)
  case Nil
  show ?case by simp
next
  case (Cons spec specs)
  show ?case
  proof (cases "path spec [''http'', ''paths'']")
    case (Inl e)
    then show ?thesis by (simp del: path.simps)
  next
    case ps: (Inr ps)
    show ?thesis
    proof (cases "iterate ps")
      case (Inl e)
      with ps show ?thesis by (simp del: path.simps)
    next
      case it: (Inr paths)
      obtain r w1 where r:
        "ingress_paths h opts d ns hostname service templates spec paths w = (r, w1)"
        by (cases "ingress_paths h opts d ns hostname service templates spec paths w")
      have e: "deletes_requested w1 = deletes_requested w"
        using deletes_ingress_paths [of h opts d ns hostname service templates spec paths w] r
        by simp
      show ?thesis
      proof (cases r)
        case (Inl x)
        with ps it r e show ?thesis by (simp del: path.simps)
      next
        case (Inr u)
        with ps it r e Cons.IH [of w1] show ?thesis by (simp del: path.simps)
      qed
    qed
  qed
qed

lemma deletes_ingress_prepareObject:
  "deletes_requested (snd (ingress_prepareObject h opts d w)) = deletes_requested w"
  by (simp add: ingress_prepareObject_def Let_def ingress_applyHost_def deletes_icinga
      deletes_ingress_rules split: sum.splits del: path.simps)

lemma ingress_host_name_differs:
  assumes "length (array_join ''-'' [JStr ''ingress'', ns, name]) \<le>
     length (escapeName h (array_join ''-'' [JStr ''ingress'', ns, name]))"
  shows "name \<noteq> JStr (escapeName h (array_join ''-'' [JStr ''ingress'', ns, name]))"
proof
  assume e: "name = JStr (escapeName h (array_join ''-'' [JStr ''ingress'', ns, name]))"
  define n where "n = escapeName h (array_join ''-'' [JStr ''ingress'', ns, name])"
  have nm: "name = JStr n" using e by (simp add: n_def)
  have "length n < length (array_join ''-'' [JStr ''ingress'', ns, name])"
    unfolding nm array_join_ingress by simp
  moreover have "length (array_join ''-'' [JStr ''ingress'', ns, name]) \<le> length n"
    using assms by (simp add: n_def)
  ultimately show False by simp
qed

text \<open>
  C3. The claim does not hold of the code. On a MODIFIED event for an Ingress object the
  listener requests exactly one deletion, \<open>deleteHost\<close> of the raw \<open>metadata.name\<close>, and
  then \<open>prepareObject\<close> applies the host under the escaped join of \<open>ingress\<close>, the
  namespace and the name. The two names differ whenever \<open>escapeName\<close> does not shorten
  the joined name, so the host of the ingress and its services are not deleted: what
  follows the delete re-applies them in place and is no recreation.
\<close>

theorem ingress_modified_deletes_other_host:
  "ev_type ev = ''MODIFIED'' \<and>
   path (ev_object ev) [''kind''] = Inr (JStr ''Ingress'') \<and>
   path (ev_object ev) [''metadata'', ''name''] = Inr name \<and>
   path (ev_object ev) [''metadata'', ''namespace''] = Inr ns \<and>
   length (array_join ''-'' [JStr ''ingress'', ns, name]) \<le>
     length (escapeName h (array_join ''-'' [JStr ''ingress'', ns, name])) \<longrightarrow>
   deletes_requested (snd (ingress_on_data h opts ev w)) =
     deletes_requested w @ [DeleteHost name] \<and>
   name \<noteq> JStr (escapeName h (array_join ''-'' [JStr ''ingress'', ns, name])) \<and>
   (\<not> attachToNodes opts \<longrightarrow>
      (\<exists>D cs. calls (snd (ingress_on_data h opts ev w)) =
         calls w @ DeleteHost name #
         ApplyHost (JStr (escapeName h (array_join ''-'' [JStr ''ingress'', ns, name])))
           D (hostTemplates opts) # cs))"
proof (intro impI)
  assume a: "ev_type ev = ''MODIFIED'' \<and>
   path (ev_object ev) [''kind''] = Inr (JStr ''Ingress'') \<and>
   path (ev_object ev) [''metadata'', ''name''] = Inr name \<and>
   path (ev_object ev) [''metadata'', ''namespace''] = Inr ns \<and>
   length (array_join ''-'' [JStr ''ingress'', ns, name]) \<le>
     length (escapeName h (array_join ''-'' [JStr ''ingress'', ns, name]))"
  then have m: "ev_type ev = ''MODIFIED''"
    and k: "path (ev_object ev) [''kind''] = Inr (JStr ''Ingress'')"
    and n: "path (ev_object ev) [''metadata'', ''name''] = Inr name"
    and s: "path (ev_object ev) [''metadata'', ''namespace''] = Inr ns"
    and l: "length (array_join ''-'' [JStr ''ingress'', ns, name]) \<le>
      length (escapeName h (array_join ''-'' [JStr ''ingress'', ns, name]))"
    by blast+
  have e: "snd (ingress_on_data h opts ev w) =
      snd (ingress_prepareObject h opts (ev_object ev) (icinga (DeleteHost name) w))"
    using m k n by (simp add: ingress_on_data_def del: path.simps)
  have 1: "deletes_requested (snd (ingress_on_data h opts ev w)) =
      deletes_requested w @ [DeleteHost name]"
    unfolding e by (simp add: deletes_ingress_prepareObject deletes_icinga)
  have 2: "name \<noteq> JStr (escapeName h (array_join ''-'' [JStr ''ingress'', ns, name]))"
    using ingress_host_name_differs [OF l] .
  have 3: "\<not> attachToNodes opts \<longrightarrow>
      (\<exists>D cs. calls (snd (ingress_on_data h opts ev w)) =
         calls w @ DeleteHost name #
         ApplyHost (JStr (escapeName h (array_join ''-'' [JStr ''ingress'', ns, name])))
           D (hostTemplates opts) # cs)"
  proof
    assume na: "\<not> attachToNodes opts"
    obtain D cs where "calls (snd (ingress_prepareObject h opts (ev_object ev)
        (icinga (DeleteHost name) w))) =
      calls (icinga (DeleteHost name) w) @
      ApplyHost (JStr (escapeName h (array_join ''-'' [JStr ''ingress'', ns, name])))
        D (hostTemplates opts) # cs"
      using ingress_prepareObject_host [OF s n na, of h "icinga (DeleteHost name) w"] by blast
    then show "\<exists>D cs. calls (snd (ingress_on_data h opts ev w)) =
         calls w @ DeleteHost name #
         ApplyHost (JStr (escapeName h (array_join ''-'' [JStr ''ingress'', ns, name])))
           D (hostTemplates opts) # cs"
      unfolding e by (simp add: icinga_calls)
  qed
  from 1 2 3 show "deletes_requested (snd (ingress_on_data h opts ev w)) =
     deletes_requested w @ [DeleteHost name] \<and>
   name \<noteq> JStr (escapeName h (array_join ''-'' [JStr ''ingress'', ns, name])) \<and>
   (\<not> attachToNodes opts \<longrightarrow>
      (\<exists>D cs. calls (snd (ingress_on_data h opts ev w)) =
         calls w @ DeleteHost name #
         ApplyHost (JStr (escapeName h (array_join ''-'' [JStr ''ingress'', ns, name])))
           D (hostTemplates opts) # cs))"
    by blast
qed

theorem ingress_modified_deletes_other_host_witness:
  "path example_ingress [''kind''] = Inr (JStr ''Ingress'') \<and>
   path example_ingress [''metadata'', ''name''] = Inr (JStr ''web'') \<and>
   path example_ingress [''metadata'', ''namespace''] = Inr (JStr ''shop'') \<and>
   escapeName plain_helpers (array_join ''-'' [JStr ''ingress'', JStr ''shop'', JStr ''web'']) =
     ''ingress-shop-web'' \<and>
   deletes_requested
     (snd (ingress_on_data plain_helpers ingress_options
             \<lparr>ev_type = ''MODIFIED'', ev_object = example_ingress\<rparr> empty_world)) =
     [DeleteHost (JStr ''web'')] \<and>
   (\<exists>D cs. calls (snd (ingress_on_data plain_helpers ingress_options
                          \<lparr>ev_type = ''MODIFIED'', ev_object = example_ingress\<rparr> empty_world)) =
          DeleteHost (JStr ''web'') # ApplyHost (JStr ''ingress-shop-web'') D [] # cs) \<and>
   JStr ''web'' \<noteq> JStr ''ingress-shop-web''"
proof -
  have k: "path example_ingress [''kind''] = Inr (JStr ''Ingress'')"
    and n: "path example_ingress [''metadata'', ''name''] = Inr (JStr ''web'')"
    and s: "path example_ingress [''metadata'', ''namespace''] = Inr (JStr ''shop'')"
    by (simp_all add: example_ingress_def)
  have e: "escapeName plain_helpers
      (array_join ''-'' [JStr ''ingress'', JStr ''shop'', JStr ''web'']) = ''ingress-shop-web''"
    by (simp add: plain_helpers_def array_join_def)
  have o: "\<not> attachToNodes ingress_options" "hostTemplates ingress_options = []"
      "deletes_requested empty_world = []" "calls empty_world = []"
    by (simp_all add: ingress_options_def deletes_requested_def empty_world_def)
  have j: "array_join ''-'' [JStr ''ingress'', JStr ''shop'', JStr ''web''] = ''ingress-shop-web''"
    by (simp add: array_join_def)
  note t = ingress_modified_deletes_other_host [where
      ev = "\<lparr>ev_type = ''MODIFIED'', ev_object = example_ingress\<rparr>"
      and h = plain_helpers and opts = ingress_options and w = empty_world
      and name = "JStr ''web''" and ns = "JStr ''shop''"]
  show ?thesis using t k n s e o j by simp
qed

section \<open>The Volume translator\<close>

lemma getAnnotations_readable: "\<exists>a. get_prop (getAnnotations d) k = Inr a"
proof -
  have r: "\<And>a. truthy a \<Longrightarrow> \<exists>b. get_prop a k = Inr b"
  proof -
    fix a
    assume "truthy a"
    then show "\<exists>b. get_prop a k = Inr b" by (cases a) simp_all
  qed
  show ?thesis
    by (auto simp: getAnnotations_def r split: sum.splits)
qed

lemma path_name_truthy:
  assumes "path d [''metadata'', ''name''] = Inr n" and "truthy n"
  shows "\<exists>m. get_prop d ''metadata'' = Inr m \<and> truthy m \<and> get_prop m ''name'' = Inr n"
proof -
  from assms(1) obtain m where m: "get_prop d ''metadata'' = Inr m" "get_prop m ''name'' = Inr n"
    by (auto split: sum.splits)
  have "truthy m" using m(2) assms(2) by (cases m) auto
  with m show ?thesis by blast
qed

lemma array_join_volume:
  "truthy n \<Longrightarrow> array_join ''-'' [JStr ''volume'', n] = ''volume-'' @ to_string n"
  by (cases n) (simp_all add: array_join_def)

text \<open>
  C5 (as amended). \<open>getHostname\<close> resolves in strict order. A truthy, that is present
  and non-empty, \<open>kube-icinga/host\<close> annotation is returned. Otherwise, with \<open>hostName\<close>
  \<open>null\<close> and a truthy \<open>metadata.name\<close>, the result is \<open>escapeName\<close> of \<open>volume-\<close> followed
  by the name, which is \<open>volume-\<close> followed by the escaped name whenever \<open>escapeName\<close>
  leaves that prefix in place. Otherwise the configured \<open>hostName\<close> is returned: with a
  configured name every volume without a truthy annotation resolves to it, and with
  \<open>hostName\<close> \<open>null\<close> a volume without a truthy name resolves to \<open>null\<close>. The only failure
  is the read of \<open>metadata\<close> on an object that is \<open>undefined\<close> or \<open>null\<close>, which is reached
  with \<open>hostName\<close> \<open>null\<close> and no truthy annotation.
\<close>

theorem volume_getHostname_precedence:
  "(\<exists>a. get_prop (getAnnotations d) ''kube-icinga/host'' = Inr a) \<and>
   (get_prop (getAnnotations d) ''kube-icinga/host'' = Inr a \<longrightarrow>
      (truthy a \<longrightarrow> getHostname h opts d = Inr a) \<and>
      (\<not> truthy a \<and> hostName opts = None \<and> path d [''metadata'', ''name''] = Inr n \<and> truthy n \<longrightarrow>
         getHostname h opts d = Inr (JStr (escapeName h (''volume-'' @ to_string n))) \<and>
         (escapeName h (''volume-'' @ to_string n) = ''volume-'' @ escapeName h (to_string n) \<longrightarrow>
            getHostname h opts d = Inr (JStr (''volume-'' @ escapeName h (to_string n))))) \<and>
      (\<not> truthy a \<and> hostName opts = Some p \<longrightarrow> getHostname h opts d = Inr (JStr p)) \<and>
      (\<not> truthy a \<and> hostName opts = None \<and> get_prop d ''metadata'' = Inr m \<and>
       \<not> (\<exists>n. path d [''metadata'', ''name''] = Inr n \<and> truthy n) \<longrightarrow>
         getHostname h opts d = Inr (hostName_value opts) \<and> hostName_value opts = JNull) \<and>
      (\<not> truthy a \<and> hostName opts = None \<and> get_prop d ''metadata'' = Inl e \<longrightarrow>
         getHostname h opts d = Inl e))"
proof (intro conjI impI)
  show "\<exists>a. get_prop (getAnnotations d) ''kube-icinga/host'' = Inr a"
    by (rule getAnnotations_readable)
next
  assume "get_prop (getAnnotations d) ''kube-icinga/host'' = Inr a" and "truthy a"
  then show "getHostname h opts d = Inr a" by (simp add: getHostname_def)
next
  assume a: "get_prop (getAnnotations d) ''kube-icinga/host'' = Inr a"
    and b: "\<not> truthy a \<and> hostName opts = None \<and> path d [''metadata'', ''name''] = Inr n \<and> truthy n"
  from b obtain m where m: "get_prop d ''metadata'' = Inr m" "truthy m" "get_prop m ''name'' = Inr n"
    using path_name_truthy by blast
  from a b m show r: "getHostname h opts d = Inr (JStr (escapeName h (''volume-'' @ to_string n)))"
    by (simp add: getHostname_def array_join_volume)
  assume "escapeName h (''volume-'' @ to_string n) = ''volume-'' @ escapeName h (to_string n)"
  with r show "getHostname h opts d = Inr (JStr (''volume-'' @ escapeName h (to_string n)))"
    by simp
next
  assume "get_prop (getAnnotations d) ''kube-icinga/host'' = Inr a"
    and "\<not> truthy a \<and> hostName opts = Some p"
  then show "getHostname h opts d = Inr (JStr p)"
    by (simp add: getHostname_def hostName_value_def)
next
  assume a: "get_prop (getAnnotations d) ''kube-icinga/host'' = Inr a"
    and b: "\<not> truthy a \<and> hostName opts = None \<and> get_prop d ''metadata'' = Inr m \<and>
       \<not> (\<exists>n. path d [''metadata'', ''name''] = Inr n \<and> truthy n)"
  show "hostName_value opts = JNull" using b by (simp add: hostName_value_def)
  show "getHostname h opts d = Inr (hostName_value opts)"
  proof (cases "truthy m")
    case False
    with a b show ?thesis by (simp add: getHostname_def)
  next
    case True
    then obtain k where k: "get_prop m ''name'' = Inr k" by (cases m) simp_all
    with b have "\<not> truthy k" by auto
    with a b True k show ?thesis by (simp add: getHostname_def)
  qed
next
  assume "get_prop (getAnnotations d) ''kube-icinga/host'' = Inr a"
    and "\<not> truthy a \<and> hostName opts = None \<and> get_prop d ''metadata'' = Inl e"
  then show "getHostname h opts d = Inl e" by (simp add: getHostname_def)
qed

text \<open>
  The claim as written fails at a volume whose \<open>kube-icinga/host\<close> annotation is present
  and empty: with \<open>hostName\<close> \<open>pool\<close> it resolves to \<open>pool\<close>, not to the annotation's value.
\<close>

theorem volume_getHostname_counterexample:
  "get_prop (getAnnotations blank_host_volume) ''kube-icinga/host'' = Inr (JStr []) \<and>
   getHostname plain_helpers (volume_DefaultOptions\<lparr>hostName := Some ''pool''\<rparr>)
     blank_host_volume = Inr (JStr ''pool'')"
  by (simp add: getHostname_def getAnnotations_def blank_host_volume_def hostName_value_def
      volume_DefaultOptions_def)

theorem volume_getHostname_precedence_witness:
  "get_prop (getAnnotations example_volume) ''kube-icinga/host'' = Inr JUndefined \<and>
   path example_volume [''metadata'', ''name''] = Inr (JStr ''data-1'') \<and>
   getHostname plain_helpers (volume_DefaultOptions\<lparr>hostName := None\<rparr>) example_volume =
     Inr (JStr ''volume-data-1'') \<and>
   getHostname plain_helpers (volume_DefaultOptions\<lparr>hostName := Some ''pool''\<rparr>) example_volume =
     Inr (JStr ''pool'') \<and>
   get_prop (getAnnotations
               (JObj [(''metadata'',
                       JObj [(''annotations'', JObj [(''kube-icinga/host'', JStr ''nas'')])])]))
     ''kube-icinga/host'' = Inr (JStr ''nas'') \<and>
   getHostname plain_helpers volume_DefaultOptions
     (JObj [(''metadata'',
             JObj [(''annotations'', JObj [(''kube-icinga/host'', JStr ''nas'')])])]) =
     Inr (JStr ''nas'') \<and>
   get_prop (getAnnotations nameless_volume) ''kube-icinga/host'' = Inr JUndefined \<and>
   get_prop nameless_volume ''metadata'' = Inr (JObj [(''uid'', JStr ''uid-4'')]) \<and>
   \<not> (\<exists>n. path nameless_volume [''metadata'', ''name''] = Inr n \<and> truthy n) \<and>
   getHostname plain_helpers (volume_DefaultOptions\<lparr>hostName := None\<rparr>) nameless_volume =
     Inr JNull \<and>
   get_prop (getAnnotations JNull) ''kube-icinga/host'' = Inr JUndefined \<and>
   get_prop JNull ''metadata'' = Inl TypeError \<and>
   getHostname plain_helpers (volume_DefaultOptions\<lparr>hostName := None\<rparr>) JNull =
     Inl TypeError"
proof -
  have a: "get_prop (getAnnotations example_volume) ''kube-icinga/host'' = Inr JUndefined"
    and n: "path example_volume [''metadata'', ''name''] = Inr (JStr ''data-1'')"
    by (simp_all add: example_volume_def getAnnotations_def)
  have b: "get_prop (getAnnotations
               (JObj [(''metadata'',
                       JObj [(''annotations'', JObj [(''kube-icinga/host'', JStr ''nas'')])])]))
     ''kube-icinga/host'' = Inr (JStr ''nas'')"
    by (simp add: getAnnotations_def)
  have o: "hostName (volume_DefaultOptions\<lparr>hostName := None\<rparr>) = None"
      "hostName (volume_DefaultOptions\<lparr>hostName := Some ''pool''\<rparr>) = Some ''pool''"
      "escapeName plain_helpers = (\<lambda>s. s)"
    by (simp_all add: plain_helpers_def)
  note t1 = volume_getHostname_precedence [where d = example_volume and a = JUndefined
      and h = plain_helpers and opts = "volume_DefaultOptions\<lparr>hostName := None\<rparr>"
      and n = "JStr ''data-1''"]
  note t2 = volume_getHostname_precedence [where d = example_volume and a = JUndefined
      and h = plain_helpers and opts = "volume_DefaultOptions\<lparr>hostName := Some ''pool''\<rparr>"
      and p = "''pool''"]
  note t3 = volume_getHostname_precedence [where
      d = "JObj [(''metadata'',
                  JObj [(''annotations'', JObj [(''kube-icinga/host'', JStr ''nas'')])])]"
      and a = "JStr ''nas''" and h = plain_helpers and opts = volume_DefaultOptions]
  have c: "get_prop (getAnnotations nameless_volume) ''kube-icinga/host'' = Inr JUndefined"
    and cm: "get_prop nameless_volume ''metadata'' = Inr (JObj [(''uid'', JStr ''uid-4'')])"
    and cn: "\<not> (\<exists>n. path nameless_volume [''metadata'', ''name''] = Inr n \<and> truthy n)"
    by (simp_all add: nameless_volume_def getAnnotations_def)
  have e: "get_prop (getAnnotations JNull) ''kube-icinga/host'' = Inr JUndefined"
    and em: "get_prop JNull ''metadata'' = Inl TypeError"
    by (simp_all add: getAnnotations_def)
  note t4 = volume_getHostname_precedence [where d = nameless_volume and a = JUndefined
      and h = plain_helpers and opts = "volume_DefaultOptions\<lparr>hostName := None\<rparr>"
      and m = "JObj [(''uid'', JStr ''uid-4'')]"]
  note t5 = volume_getHostname_precedence [where d = JNull and a = JUndefined
      and h = plain_helpers and opts = "volume_DefaultOptions\<lparr>hostName := None\<rparr>"
      and e = TypeError]
  have r4: "getHostname plain_helpers (volume_DefaultOptions\<lparr>hostName := None\<rparr>)
      nameless_volume = Inr JNull"
    using t4 c cm cn o by simp
  have r5: "getHostname plain_helpers (volume_DefaultOptions\<lparr>hostName := None\<rparr>) JNull =
      Inl TypeError"
    using t5 e em o by simp
  have r123: "get_prop (getAnnotations example_volume) ''kube-icinga/host'' = Inr JUndefined \<and>
   path example_volume [''metadata'', ''name''] = Inr (JStr ''data-1'') \<and>
   getHostname plain_helpers (volume_DefaultOptions\<lparr>hostName := None\<rparr>) example_volume =
     Inr (JStr ''volume-data-1'') \<and>
   getHostname plain_helpers (volume_DefaultOptions\<lparr>hostName := Some ''pool''\<rparr>) example_volume =
     Inr (JStr ''pool'') \<and>
   get_prop (getAnnotations
               (JObj [(''metadata'',
                       JObj [(''annotations'', JObj [(''kube-icinga/host'', JStr ''nas'')])])]))
     ''kube-icinga/host'' = Inr (JStr ''nas'') \<and>
   getHostname plain_helpers volume_DefaultOptions
     (JObj [(''metadata'',
             JObj [(''annotations'', JObj [(''kube-icinga/host'', JStr ''nas'')])])]) =
     Inr (JStr ''nas'')"
    using t1 t2 t3 a n b o by simp
  from r123 c cm cn r4 e em r5 show ?thesis by blast
qed

text \<open>
  C6. \<open>Volume.deleteObject\<close> is keyed off the configured \<open>hostName\<close>. With \<open>hostName\<close>
  \<open>null\<close> it requests exactly one \<open>deleteHost\<close>, for the resolved host name, and nothing
  else. With a configured \<open>hostName\<close> it requests exactly one \<open>deleteServicesByFilter\<close>,
  whose filter holds the object's \<open>metadata.uid\<close> between the quotes, and nothing else.
\<close>

theorem volume_deleteObject_policy:
  "(hostName opts = None \<and> getHostname h opts d = Inr hostname \<longrightarrow>
      volume_deleteObject h opts d w = (Inr (), icinga (DeleteHost hostname) w) \<and>
      calls (snd (volume_deleteObject h opts d w)) = calls w @ [DeleteHost hostname]) \<and>
   (hostName opts = Some p \<and> path d [''metadata'', ''uid''] = Inr (JStr uid) \<longrightarrow>
      volume_deleteObject h opts d w =
        (Inr (),
         icinga (DeleteServicesByFilter
                   (''service.vars.kubernetes.metadata.uid=='' @ [CHR 0x22] @ uid @ [CHR 0x22]))
           w) \<and>
      calls (snd (volume_deleteObject h opts d w)) =
        calls w @ [DeleteServicesByFilter
                     (''service.vars.kubernetes.metadata.uid=='' @ [CHR 0x22] @ uid @ [CHR 0x22])])"
  by (simp add: volume_deleteObject_def icinga_calls)

theorem volume_deleteObject_policy_witness:
  "getHostname plain_helpers (volume_DefaultOptions\<lparr>hostName := None\<rparr>) example_volume =
     Inr (JStr ''volume-data-1'') \<and>
   calls (snd (volume_deleteObject plain_helpers (volume_DefaultOptions\<lparr>hostName := None\<rparr>)
                 example_volume empty_world)) = [DeleteHost (JStr ''volume-data-1'')] \<and>
   hostName volume_DefaultOptions = Some ''kubernetes-volumes'' \<and>
   path example_volume [''metadata'', ''uid''] = Inr (JStr ''uid-1'') \<and>
   calls (snd (volume_deleteObject plain_helpers volume_DefaultOptions example_volume
                 empty_world)) =
     [DeleteServicesByFilter
        (''service.vars.kubernetes.metadata.uid=='' @ [CHR 0x22] @ ''uid-1'' @ [CHR 0x22])]"
proof -
  have g: "getHostname plain_helpers (volume_DefaultOptions\<lparr>hostName := None\<rparr>) example_volume =
     Inr (JStr ''volume-data-1'')"
    by (simp add: getHostname_def getAnnotations_def example_volume_def plain_helpers_def
        array_join_def)
  have u: "path example_volume [''metadata'', ''uid''] = Inr (JStr ''uid-1'')"
    by (simp add: example_volume_def)
  have o: "hostName (volume_DefaultOptions\<lparr>hostName := None\<rparr>) = None"
      "hostName volume_DefaultOptions = Some ''kubernetes-volumes''" "calls empty_world = []"
    by (simp_all add: volume_DefaultOptions_def empty_world_def)
  note t1 = volume_deleteObject_policy [where opts = "volume_DefaultOptions\<lparr>hostName := None\<rparr>"
      and h = plain_helpers and d = example_volume and hostname = "JStr ''volume-data-1''"
      and w = empty_world]
  note t2 = volume_deleteObject_policy [where opts = volume_DefaultOptions
      and h = plain_helpers and d = example_volume and p = "''kubernetes-volumes''"
      and uid = "''uid-1''" and w = empty_world]
  show ?thesis using t1 t2 g u o by (simp add: icinga_calls)
qed

lemma volume_applyHost_calls:
  "calls (volume_applyHost opts name address metadata templates w) =
     calls w @ [ApplyHost name (assign (volume_host name address metadata) (hostDefinition opts))
                  (hostTemplates opts)]"
  by (simp add: volume_applyHost_def icinga_calls)

lemma volume_applyHost_nodes:
  "nodes (volume_applyHost opts name address metadata templates w) = nodes w"
  by (simp add: volume_applyHost_def icinga_nodes)

lemma volume_applyService_calls:
  "calls (snd (volume_applyService opts host name D t w)) =
     calls w @ map (\<lambda>n. ApplyService n name (set_prop D ''host_name'' n) t)
                 (if attachToNodes opts then getWorkerNodes w else [host])"
  by (simp add: volume_applyService_def attach_nodes_calls Let_def icinga_calls)

lemma volume_applyService_nodes:
  "nodes (snd (volume_applyService opts host name D t w)) = nodes w"
  by (simp add: volume_applyService_def attach_nodes_nodes Let_def icinga_nodes)

lemma volume_required_name_Inr:
  "volume_required_name d = Inr n \<longleftrightarrow> (path d [''metadata'', ''name''] = Inr n \<and> truthy n)"
proof
  assume "volume_required_name d = Inr n"
  then show "path d [''metadata'', ''name''] = Inr n \<and> truthy n"
    by (auto simp: volume_required_name_def split: sum.splits if_splits)
next
  assume a: "path d [''metadata'', ''name''] = Inr n \<and> truthy n"
  then obtain m where "get_prop d ''metadata'' = Inr m" "truthy m" "get_prop m ''name'' = Inr n"
    using path_name_truthy by blast
  with a show "volume_required_name d = Inr n"
    by (simp add: volume_required_name_def)
qed

lemma getHostname_total:
  "get_prop d ''metadata'' = Inr m \<Longrightarrow> \<exists>hn. getHostname h opts d = Inr hn"
proof -
  assume m: "get_prop d ''metadata'' = Inr m"
  obtain a where a: "get_prop (getAnnotations d) ''kube-icinga/host'' = Inr a"
    using getAnnotations_readable by blast
  have "truthy m \<Longrightarrow> \<exists>n. get_prop m ''name'' = Inr n" by (cases m) simp_all
  with m a show ?thesis
    by (auto simp: getHostname_def split: sum.splits)
qed

lemma volume_required_name_Error:
  assumes "get_prop d ''metadata'' = Inr m"
    and "\<not> (\<exists>n. path d [''metadata'', ''name''] = Inr n \<and> truthy n)"
  shows "volume_required_name d = Inl (Error ''resource name in metadata is required'')"
proof (cases "truthy m")
  case False
  with assms(1) show ?thesis by (simp add: volume_required_name_def)
next
  case True
  then obtain n where n: "get_prop m ''name'' = Inr n" by (cases m) simp_all
  with assms have "\<not> truthy n" by auto
  with assms(1) True n show ?thesis by (simp add: volume_required_name_def)
qed

lemma volume_prepareObject_guard:
  assumes "volume_required_name d = Inl e"
  shows "(fst (volume_prepareObject h opts d w) = Inl e \<or>
          (\<exists>e'. getHostname h opts d = Inl e' \<and> fst (volume_prepareObject h opts d w) = Inl e')) \<and>
         (calls (snd (volume_prepareObject h opts d w)) = calls w \<or>
          (\<exists>hn. calls (snd (volume_prepareObject h opts d w)) =
             calls w @ [ApplyHost hn (assign (volume_host hn hn d) (hostDefinition opts))
                          (hostTemplates opts)])) \<and>
         nodes (snd (volume_prepareObject h opts d w)) = nodes w"
  using assms
  by (auto simp: volume_prepareObject_def Let_def volume_applyHost_calls volume_applyHost_nodes
      split: sum.splits)

text \<open>
  C9. For a volume that lacks a truthy \<open>metadata.name\<close>, \<open>prepareObject\<close> fails, with the
  error \<open>resource name in metadata is required\<close> whenever the object can be read at all.
  The failure is confined to that object: at most the host was requested before the
  guard, no service and no service group is requested, the worker registry is
  untouched, the listener takes the failed translation as the world it left, and the
  watch loop goes on with the next event from there.
\<close>

theorem volume_without_name_fails:
  "\<not> (\<exists>n. path d [''metadata'', ''name''] = Inr n \<and> truthy n) \<longrightarrow>
   (\<exists>e. fst (volume_prepareObject h opts d w) = Inl e) \<and>
   (get_prop d ''metadata'' = Inr m \<longrightarrow>
      fst (volume_prepareObject h opts d w) =
        Inl (Error ''resource name in metadata is required'')) \<and>
   (calls (snd (volume_prepareObject h opts d w)) = calls w \<or>
    (\<exists>hn. calls (snd (volume_prepareObject h opts d w)) =
       calls w @ [ApplyHost hn (assign (volume_host hn hn d) (hostDefinition opts))
                    (hostTemplates opts)])) \<and>
   nodes (snd (volume_prepareObject h opts d w)) = nodes w \<and>
   (ev_object ev = d \<and> (ev_type ev = ''ADDED'' \<or> ev_type ev = ''MODIFIED'') \<longrightarrow>
      volume_on_data h opts ev w =
        (if path d [''kind''] = Inr (JStr ''PersistentVolume'') \<and> discover opts
         then snd (volume_prepareObject h opts d w) else w)) \<and>
   volume_watch h opts (ev # evs) w = volume_watch h opts evs (volume_on_data h opts ev w)"
proof (intro impI)
  assume a: "\<not> (\<exists>n. path d [''metadata'', ''name''] = Inr n \<and> truthy n)"
  then obtain e where e: "volume_required_name d = Inl e"
    using volume_required_name_Inr [of d] by (cases "volume_required_name d") auto
  note g = volume_prepareObject_guard [OF e, of h opts w]
  have 1: "\<exists>e. fst (volume_prepareObject h opts d w) = Inl e"
    using g by auto
  have 2: "get_prop d ''metadata'' = Inr m \<longrightarrow>
      fst (volume_prepareObject h opts d w) =
        Inl (Error ''resource name in metadata is required'')"
  proof
    assume m: "get_prop d ''metadata'' = Inr m"
    then obtain hn where "getHostname h opts d = Inr hn"
      using getHostname_total by blast
    moreover have "volume_required_name d = Inl (Error ''resource name in metadata is required'')"
      using volume_required_name_Error [OF m a] .
    ultimately show "fst (volume_prepareObject h opts d w) =
        Inl (Error ''resource name in metadata is required'')"
      by (simp add: volume_prepareObject_def Let_def)
  qed
  have 3: "ev_object ev = d \<and> (ev_type ev = ''ADDED'' \<or> ev_type ev = ''MODIFIED'') \<longrightarrow>
      volume_on_data h opts ev w =
        (if path d [''kind''] = Inr (JStr ''PersistentVolume'') \<and> discover opts
         then snd (volume_prepareObject h opts d w) else w)"
    by (auto simp: volume_on_data_def handleResource_def)
  have 4: "volume_watch h opts (ev # evs) w = volume_watch h opts evs (volume_on_data h opts ev w)"
    by (simp add: volume_watch_def)
  from 1 2 3 4 g show "(\<exists>e. fst (volume_prepareObject h opts d w) = Inl e) \<and>
   (get_prop d ''metadata'' = Inr m \<longrightarrow>
      fst (volume_prepareObject h opts d w) =
        Inl (Error ''resource name in metadata is required'')) \<and>
   (calls (snd (volume_prepareObject h opts d w)) = calls w \<or>
    (\<exists>hn. calls (snd (volume_prepareObject h opts d w)) =
       calls w @ [ApplyHost hn (assign (volume_host hn hn d) (hostDefinition opts))
                    (hostTemplates opts)])) \<and>
   nodes (snd (volume_prepareObject h opts d w)) = nodes w \<and>
   (ev_object ev = d \<and> (ev_type ev = ''ADDED'' \<or> ev_type ev = ''MODIFIED'') \<longrightarrow>
      volume_on_data h opts ev w =
        (if path d [''kind''] = Inr (JStr ''PersistentVolume'') \<and> discover opts
         then snd (volume_prepareObject h opts d w) else w)) \<and>
   volume_watch h opts (ev # evs) w = volume_watch h opts evs (volume_on_data h opts ev w)"
    by blast
qed

lemma nameless_volume_run:
  "volume_prepareObject plain_helpers volume_DefaultOptions nameless_volume empty_world =
     (Inl (Error ''resource name in metadata is required''),
      \<lparr>calls = [ApplyHost (JStr ''kubernetes-volumes'')
                  (volume_host (JStr ''kubernetes-volumes'') (JStr ''kubernetes-volumes'')
                     nameless_volume) []],
       nodes = []\<rparr>)"
  by (simp add: volume_prepareObject_def getHostname_def getAnnotations_def
      volume_required_name_def volume_applyHost_def icinga_def assign_def hostName_value_def
      nameless_volume_def volume_DefaultOptions_def empty_world_def)

theorem volume_without_name_fails_witness:
  "\<not> (\<exists>n. path nameless_volume [''metadata'', ''name''] = Inr n \<and> truthy n) \<and>
   fst (volume_prepareObject plain_helpers volume_DefaultOptions nameless_volume empty_world) =
     Inl (Error ''resource name in metadata is required'') \<and>
   volume_on_data plain_helpers volume_DefaultOptions
       \<lparr>ev_type = ''ADDED'', ev_object = nameless_volume\<rparr> empty_world =
     \<lparr>calls = [ApplyHost (JStr ''kubernetes-volumes'')
                 (volume_host (JStr ''kubernetes-volumes'') (JStr ''kubernetes-volumes'')
                    nameless_volume) []],
      nodes = []\<rparr> \<and>
   volume_watch plain_helpers volume_DefaultOptions
       [\<lparr>ev_type = ''ADDED'', ev_object = nameless_volume\<rparr>,
        \<lparr>ev_type = ''ADDED'', ev_object = example_volume\<rparr>] empty_world =
     volume_watch plain_helpers volume_DefaultOptions
       [\<lparr>ev_type = ''ADDED'', ev_object = example_volume\<rparr>]
       \<lparr>calls = [ApplyHost (JStr ''kubernetes-volumes'')
                   (volume_host (JStr ''kubernetes-volumes'') (JStr ''kubernetes-volumes'')
                      nameless_volume) []],
        nodes = []\<rparr>"
proof -
  have n: "\<not> (\<exists>n. path nameless_volume [''metadata'', ''name''] = Inr n \<and> truthy n)"
    by (simp add: nameless_volume_def)
  have m: "get_prop nameless_volume ''metadata'' = Inr (JObj [(''uid'', JStr ''uid-4'')])"
    and k: "path nameless_volume [''kind''] = Inr (JStr ''PersistentVolume'')"
    by (simp_all add: nameless_volume_def)
  have o: "discover volume_DefaultOptions" by (simp add: volume_DefaultOptions_def)
  note t = volume_without_name_fails [where d = nameless_volume and h = plain_helpers
      and opts = volume_DefaultOptions and w = empty_world
      and m = "JObj [(''uid'', JStr ''uid-4'')]"
      and ev = "\<lparr>ev_type = ''ADDED'', ev_object = nameless_volume\<rparr>"
      and evs = "[\<lparr>ev_type = ''ADDED'', ev_object = example_volume\<rparr>]"]
  show ?thesis using t n m k o by (simp add: nameless_volume_run)
qed

text \<open>
  C10. The claim does not hold of the code: for a volume with a name whose
  \<open>spec.claimRef\<close> (or \<open>spec\<close>) is missing, the read of
  \<open>definition.spec.claimRef.namespace\<close> throws under \<open>applyServices\<close>, so
  \<open>prepareObject\<close> fails after at most the host was requested, and no service is applied.
\<close>

theorem volume_without_claimRef_fails:
  "applyServices opts \<and> path d [''metadata'', ''name''] = Inr n \<and> truthy n \<and>
   path d [''spec'', ''claimRef'', ''namespace''] = Inl e \<longrightarrow>
   fst (volume_prepareObject h opts d w) = Inl e \<and>
   (calls (snd (volume_prepareObject h opts d w)) = calls w \<or>
    (\<exists>hn. calls (snd (volume_prepareObject h opts d w)) =
       calls w @ [ApplyHost hn (assign (volume_host hn hn d) (hostDefinition opts))
                    (hostTemplates opts)]))"
proof (intro impI)
  assume a: "applyServices opts \<and> path d [''metadata'', ''name''] = Inr n \<and> truthy n \<and>
   path d [''spec'', ''claimRef'', ''namespace''] = Inl e"
  then have r: "volume_required_name d = Inr n"
    by (simp add: volume_required_name_Inr)
  from a obtain m where "get_prop d ''metadata'' = Inr m"
    using path_name_truthy by blast
  then obtain hn where hn: "getHostname h opts d = Inr hn"
    using getHostname_total by blast
  from a r hn show "fst (volume_prepareObject h opts d w) = Inl e \<and>
   (calls (snd (volume_prepareObject h opts d w)) = calls w \<or>
    (\<exists>hn. calls (snd (volume_prepareObject h opts d w)) =
       calls w @ [ApplyHost hn (assign (volume_host hn hn d) (hostDefinition opts))
                    (hostTemplates opts)]))"
    by (auto simp: volume_prepareObject_def volume_services_def Let_def volume_applyHost_calls)
qed

theorem volume_without_claimRef_fails_witness:
  "applyServices volume_DefaultOptions \<and>
   path unclaimed_volume [''metadata'', ''name''] = Inr (JStr ''data-3'') \<and>
   path unclaimed_volume [''spec'', ''claimRef'', ''namespace''] = Inl TypeError \<and>
   volume_prepareObject plain_helpers volume_DefaultOptions unclaimed_volume empty_world =
     (Inl TypeError,
      \<lparr>calls = [ApplyHost (JStr ''kubernetes-volumes'')
                  (volume_host (JStr ''kubernetes-volumes'') (JStr ''kubernetes-volumes'')
                     unclaimed_volume) []],
       nodes = []\<rparr>)"
proof -
  have a: "applyServices volume_DefaultOptions" by (simp add: volume_DefaultOptions_def)
  have n: "path unclaimed_volume [''metadata'', ''name''] = Inr (JStr ''data-3'')"
    and c: "path unclaimed_volume [''spec'', ''claimRef'', ''namespace''] = Inl TypeError"
    by (simp_all add: unclaimed_volume_def)
  have r: "snd (volume_prepareObject plain_helpers volume_DefaultOptions unclaimed_volume
      empty_world) =
      \<lparr>calls = [ApplyHost (JStr ''kubernetes-volumes'')
                  (volume_host (JStr ''kubernetes-volumes'') (JStr ''kubernetes-volumes'')
                     unclaimed_volume) []],
       nodes = []\<rparr>"
    by (simp add: volume_prepareObject_def getHostname_def getAnnotations_def
      volume_required_name_def volume_applyHost_def icinga_def assign_def hostName_value_def
      volume_services_def unclaimed_volume_def volume_DefaultOptions_def empty_world_def)
  note t = volume_without_claimRef_fails [where opts = volume_DefaultOptions
      and d = unclaimed_volume and n = "JStr ''data-3''" and e = TypeError and h = plain_helpers
      and w = empty_world]
  have "fst (volume_prepareObject plain_helpers volume_DefaultOptions unclaimed_volume
      empty_world) = Inl TypeError"
    using t a n c by simp
  with r a n c show ?thesis by (simp add: prod_eq_iff)
qed

section \<open>The Ingress fan-out\<close>

lemma applied_icinga:
  "services_applied (icinga c w) = services_applied w + (if is_ApplyService c then 1 else 0)"
  "hosts_applied (icinga c w) = hosts_applied w + (if is_ApplyHost c then 1 else 0)"
  by (simp_all add: services_applied_def hosts_applied_def icinga_calls)

lemma ingress_applyService_single:
  "\<not> attachToNodes opts \<Longrightarrow> ingress_applyService opts host name D t w = (D', w') \<Longrightarrow>
   services_applied w' = services_applied w + 1 \<and> hosts_applied w' = hosts_applied w"
  by (auto simp: ingress_applyService_def Let_def applied_icinga)

lemma ingress_path_count:
  assumes "\<not> attachToNodes opts"
    and "ingress_path h opts d ns hostname service templates spec p w = (Inr u, w')"
    and "path d [''spec'', ''tls''] = Inr tls"
  shows "services_applied w' = services_applied w + (if truthy tls then 2 else 1) \<and>
         hosts_applied w' = hosts_applied w"
proof -
  from assms(2) obtain pp host where pp: "get_prop p ''path'' = Inr pp"
    and host: "get_prop spec ''host'' = Inr host"
    by (auto simp: ingress_path_def split: sum.splits)
  define base where "base = (if truthy pp then pp else JStr ''/'')"
  define name where "name = escapeName h (array_join ''-'' [host, JStr ''http'', base])"
  define addition where "addition =
    assign (assign (ingress_addition d host base ns) (serviceDefinition opts)) service"
  obtain a1 w1 where a1: "ingress_applyService opts hostname name addition templates w = (a1, w1)"
    by (cases "ingress_applyService opts hostname name addition templates w")
  note c1 = ingress_applyService_single [OF assms(1) a1]
  show ?thesis
  proof (cases "truthy tls")
    case False
    with assms(2,3) pp host a1 have "w' = w1"
      by (simp add: ingress_path_def Let_def base_def name_def addition_def del: path.simps)
    with c1 False show ?thesis by simp
  next
    case True
    define name' where "name' = escapeName h (array_join ''-'' [host, JStr ''https'', base])"
    define a3 where "a3 = ingress_https a1"
    obtain a4 w2 where a4: "ingress_applyService opts hostname name' a3 templates w1 = (a4, w2)"
      by (cases "ingress_applyService opts hostname name' a3 templates w1")
    note c2 = ingress_applyService_single [OF assms(1) a4]
    from assms(2,3) pp host a1 a4 True have "w' = w2"
      by (simp add: ingress_path_def Let_def base_def name_def addition_def name'_def a3_def
          del: path.simps)
    with c1 c2 True show ?thesis by simp
  qed
qed

lemma ingress_paths_count:
  assumes "\<not> attachToNodes opts" and "path d [''spec'', ''tls''] = Inr tls"
  shows "ingress_paths h opts d ns hostname service templates spec ps w = (Inr u, w') \<Longrightarrow>
         services_applied w' = services_applied w + (if truthy tls then 2 else 1) * length ps \<and>
         hosts_applied w' = hosts_applied w"
proof (induction ps arbitrary: w)
  case Nil
  then show ?case by simp
next
  case (Cons p ps)
  obtain r w1 where r: "ingress_path h opts d ns hostname service templates spec p w = (r, w1)"
    by (cases "ingress_path h opts d ns hostname service templates spec p w")
  with Cons.prems obtain u1 where u1: "r = Inr u1"
    by (cases r) auto
  from r u1 Cons.prems have rest:
    "ingress_paths h opts d ns hostname service templates spec ps w1 = (Inr u, w')"
    by simp
  from ingress_path_count [OF assms(1) r [unfolded u1] assms(2)] Cons.IH [OF rest]
  show ?case by (simp add: algebra_simps)
qed

lemma ingress_rules_count:
  assumes "\<not> attachToNodes opts" and "path d [''spec'', ''tls''] = Inr tls"
  shows "ingress_rules h opts d ns hostname service templates specs w = (Inr u, w') \<Longrightarrow>
         services_applied w' =
           services_applied w +
           (if truthy tls then 2 else 1) * length (concat (map rule_paths specs)) \<and>
         hosts_applied w' = hosts_applied w"
proof (induction specs arbitrary: w)
  case Nil
  then show ?case by simp
next
  case (Cons spec specs)
  from Cons.prems obtain ps where ps: "path spec [''http'', ''paths''] = Inr ps"
    by (cases "path spec [''http'', ''paths'']") (simp_all del: path.simps)
  from Cons.prems ps obtain paths where it: "iterate ps = Inr paths"
    by (cases "iterate ps") (simp_all del: path.simps)
  have rp: "rule_paths spec = paths" using ps it by (simp add: rule_paths_def del: path.simps)
  obtain r w1 where r:
    "ingress_paths h opts d ns hostname service templates spec paths w = (r, w1)"
    by (cases "ingress_paths h opts d ns hostname service templates spec paths w")
  with Cons.prems ps it obtain u1 where u1: "r = Inr u1"
    by (cases r) (simp_all del: path.simps)
  from r u1 Cons.prems ps it have rest:
    "ingress_rules h opts d ns hostname service templates specs w1 = (Inr u, w')"
    by (simp del: path.simps)
  from ingress_paths_count [OF assms r [unfolded u1]] Cons.IH [OF rest] rp
  show ?case by (simp add: algebra_simps)
qed

lemma length_rule_path_pairs:
  "path d [''spec'', ''rules''] = Inr rules \<Longrightarrow> iterate rules = Inr specs \<Longrightarrow>
   length (rule_path_pairs d) = length (concat (map rule_paths specs))"
  by (simp add: rule_path_pairs_def length_concat comp_def del: path.simps)

text \<open>
  The fan-out of a translation that completes, with \<open>applyServices\<close> on and
  \<open>attachToNodes\<close> off: exactly one host and, for every rule-path pair of the spec, one
  service, or two when \<open>spec.tls\<close> is truthy. An ingress with two rule-path pairs and
  TLS then yields four services and one host.
\<close>

lemma ingress_service_fan_out:
  "applyServices opts \<and> \<not> attachToNodes opts \<and> path d [''spec'', ''tls''] = Inr tls \<and>
   fst (ingress_prepareObject h opts d w) = Inr () \<longrightarrow>
   services_applied (snd (ingress_prepareObject h opts d w)) =
     services_applied w + (if truthy tls then 2 else 1) * length (rule_path_pairs d) \<and>
   hosts_applied (snd (ingress_prepareObject h opts d w)) = hosts_applied w + 1 \<and>
   (truthy tls \<and> length (rule_path_pairs d) = 2 \<longrightarrow>
      services_applied (snd (ingress_prepareObject h opts d w)) = services_applied w + 4)"
proof (intro impI)
  assume a: "applyServices opts \<and> \<not> attachToNodes opts \<and> path d [''spec'', ''tls''] = Inr tls \<and>
   fst (ingress_prepareObject h opts d w) = Inr ()"
  then have ap: "applyServices opts" and n: "\<not> attachToNodes opts"
    and t: "path d [''spec'', ''tls''] = Inr tls"
    and ok: "fst (ingress_prepareObject h opts d w) = Inr ()"
    by blast+
  from ok obtain ns where ns: "path d [''metadata'', ''namespace''] = Inr ns"
    by (cases "path d [''metadata'', ''namespace'']")
      (simp_all add: ingress_prepareObject_def del: path.simps)
  from ok ns obtain name where name: "path d [''metadata'', ''name''] = Inr name"
    by (cases "path d [''metadata'', ''name'']")
      (simp_all add: ingress_prepareObject_def del: path.simps)
  define hostname where
    "hostname = JStr (escapeName h (array_join ''-'' [JStr ''ingress'', ns, name]))"
  define w1 where "w1 = ingress_applyHost opts hostname name d (hostTemplates opts) w"
  define w2 where "w2 = icinga (ApplyServiceGroup ns None) w1"
  have c2: "services_applied w2 = services_applied w" "hosts_applied w2 = hosts_applied w + 1"
    by (simp_all add: w2_def w1_def ingress_applyHost_def applied_icinga)
  have e0: "ingress_prepareObject h opts d w =
      (case path d [''spec'', ''rules''] of
         Inl e \<Rightarrow> (Inl e, w2)
       | Inr rules \<Rightarrow>
           (case iterate rules of
              Inl e \<Rightarrow> (Inl e, w2)
            | Inr specs \<Rightarrow>
                ingress_rules h opts d ns hostname (prepareResource h d)
                  (serviceTemplates opts @ prepareTemplates h d) specs w2))"
    unfolding hostname_def w1_def w2_def ingress_prepareObject_def Let_def
    using ap n ns name by (simp del: path.simps)
  from ok obtain rules where rules: "path d [''spec'', ''rules''] = Inr rules"
    unfolding e0 by (cases "path d [''spec'', ''rules'']") (simp_all del: path.simps)
  from ok rules obtain specs where specs: "iterate rules = Inr specs"
    unfolding e0 by (cases "iterate rules") (simp_all del: path.simps)
  have e: "ingress_prepareObject h opts d w =
      ingress_rules h opts d ns hostname (prepareResource h d)
        (serviceTemplates opts @ prepareTemplates h d) specs w2"
    unfolding e0 using rules specs by (simp del: path.simps)
  with ok have r: "ingress_rules h opts d ns hostname (prepareResource h d)
        (serviceTemplates opts @ prepareTemplates h d) specs w2 =
      (Inr (), snd (ingress_prepareObject h opts d w))"
    by (simp add: prod_eq_iff)
  note k = ingress_rules_count [OF n t r]
  have l: "length (rule_path_pairs d) = length (concat (map rule_paths specs))"
    using length_rule_path_pairs [OF rules specs] .
  from k c2 l show "services_applied (snd (ingress_prepareObject h opts d w)) =
     services_applied w + (if truthy tls then 2 else 1) * length (rule_path_pairs d) \<and>
   hosts_applied (snd (ingress_prepareObject h opts d w)) = hosts_applied w + 1 \<and>
   (truthy tls \<and> length (rule_path_pairs d) = 2 \<longrightarrow>
      services_applied (snd (ingress_prepareObject h opts d w)) = services_applied w + 4)"
    by simp
qed

lemma example_ingress_completes:
  "fst (ingress_prepareObject plain_helpers ingress_options example_ingress empty_world) = Inr ()"
  by (simp add: ingress_prepareObject_def ingress_path_def ingress_applyService_def
      ingress_applyHost_def ingress_https_def Let_def example_ingress_def ingress_options_def
      plain_helpers_def split: prod.splits)

lemma ingress_service_fan_out_example:
  "applyServices ingress_options \<and> \<not> attachToNodes ingress_options \<and>
   path example_ingress [''spec'', ''tls''] =
     Inr (JArr [JObj [(''secretName'', JStr ''shop-tls'')]]) \<and>
   fst (ingress_prepareObject plain_helpers ingress_options example_ingress empty_world) =
     Inr () \<and>
   length (rule_path_pairs example_ingress) = 2 \<and>
   services_applied (snd (ingress_prepareObject plain_helpers ingress_options example_ingress
                            empty_world)) = 4 \<and>
   hosts_applied (snd (ingress_prepareObject plain_helpers ingress_options example_ingress
                         empty_world)) = 1"
proof -
  have o: "applyServices ingress_options" "\<not> attachToNodes ingress_options"
    by (simp_all add: ingress_options_def)
  have t: "path example_ingress [''spec'', ''tls''] =
      Inr (JArr [JObj [(''secretName'', JStr ''shop-tls'')]])"
    by (simp add: example_ingress_def)
  have p: "length (rule_path_pairs example_ingress) = 2"
    by (simp add: rule_path_pairs_def rule_paths_def example_ingress_def)
  have z: "services_applied empty_world = 0" "hosts_applied empty_world = 0"
    by (simp_all add: services_applied_def hosts_applied_def empty_world_def)
  note f = ingress_service_fan_out [where opts = ingress_options and d = example_ingress
      and tls = "JArr [JObj [(''secretName'', JStr ''shop-tls'')]]" and h = plain_helpers
      and w = empty_world]
  show ?thesis using f o t p z example_ingress_completes by simp
qed

text \<open>
  C8. The claim does not hold of the code. With \<open>applyServices\<close> on, an ingress whose
  first rule has no \<open>http\<close> block makes the outer loop of \<open>prepareObject\<close> throw on
  \<open>spec.http.paths\<close>: the translation fails and no service is applied, whatever the
  rules that follow hold. Such an ingress can have exactly two rule-path pairs and TLS.
\<close>

theorem ingress_rule_without_http_fails:
  "applyServices opts \<and>
   path d [''metadata'', ''namespace''] = Inr ns \<and>
   path d [''metadata'', ''name''] = Inr name \<and>
   path d [''spec'', ''rules''] = Inr rules \<and>
   iterate rules = Inr (spec # specs) \<and>
   path spec [''http'', ''paths''] = Inl e \<longrightarrow>
   fst (ingress_prepareObject h opts d w) = Inl e \<and>
   services_applied (snd (ingress_prepareObject h opts d w)) = services_applied w"
proof (intro impI)
  assume a: "applyServices opts \<and>
   path d [''metadata'', ''namespace''] = Inr ns \<and>
   path d [''metadata'', ''name''] = Inr name \<and>
   path d [''spec'', ''rules''] = Inr rules \<and>
   iterate rules = Inr (spec # specs) \<and>
   path spec [''http'', ''paths''] = Inl e"
  then have ap: "applyServices opts"
    and ns: "path d [''metadata'', ''namespace''] = Inr ns"
    and nm: "path d [''metadata'', ''name''] = Inr name"
    and ru: "path d [''spec'', ''rules''] = Inr rules"
    and it: "iterate rules = Inr (spec # specs)"
    and ht: "path spec [''http'', ''paths''] = Inl e"
    by blast+
  define hostname where
    "hostname = JStr (escapeName h (array_join ''-'' [JStr ''ingress'', ns, name]))"
  define w1 where "w1 = (if \<not> attachToNodes opts
      then ingress_applyHost opts hostname name d (hostTemplates opts) w else w)"
  define w2 where "w2 = icinga (ApplyServiceGroup ns None) w1"
  have r: "ingress_rules h opts d ns hostname (prepareResource h d)
      (serviceTemplates opts @ prepareTemplates h d) (spec # specs) w2 = (Inl e, w2)"
    using ht by (simp del: path.simps)
  have e0: "ingress_prepareObject h opts d w =
      ingress_rules h opts d ns hostname (prepareResource h d)
        (serviceTemplates opts @ prepareTemplates h d) (spec # specs) w2"
    unfolding hostname_def w1_def w2_def ingress_prepareObject_def Let_def
    using ap ns nm ru it by (simp del: path.simps ingress_rules.simps)
  have c: "services_applied w2 = services_applied w"
    by (simp add: w2_def w1_def ingress_applyHost_def applied_icinga)
  show "fst (ingress_prepareObject h opts d w) = Inl e \<and>
   services_applied (snd (ingress_prepareObject h opts d w)) = services_applied w"
    unfolding e0 r using c by simp
qed

theorem ingress_rule_without_http_fails_witness:
  "applyServices ingress_options \<and> \<not> attachToNodes ingress_options \<and>
   path host_only_ingress [''metadata'', ''namespace''] = Inr (JStr ''shop'') \<and>
   path host_only_ingress [''metadata'', ''name''] = Inr (JStr ''web'') \<and>
   path (JObj [(''host'', JStr ''static.example.org'')]) [''http'', ''paths''] = Inl TypeError \<and>
   path host_only_ingress [''spec'', ''tls''] =
     Inr (JArr [JObj [(''secretName'', JStr ''shop-tls'')]]) \<and>
   truthy (JArr [JObj [(''secretName'', JStr ''shop-tls'')]]) \<and>
   length (rule_path_pairs host_only_ingress) = 2 \<and>
   fst (ingress_prepareObject plain_helpers ingress_options host_only_ingress empty_world) =
     Inl TypeError \<and>
   services_applied (snd (ingress_prepareObject plain_helpers ingress_options host_only_ingress
                            empty_world)) = 0"
proof -
  have o: "applyServices ingress_options" "\<not> attachToNodes ingress_options"
    by (simp_all add: ingress_options_def)
  have ns: "path host_only_ingress [''metadata'', ''namespace''] = Inr (JStr ''shop'')"
    and nm: "path host_only_ingress [''metadata'', ''name''] = Inr (JStr ''web'')"
    and tl: "path host_only_ingress [''spec'', ''tls''] =
      Inr (JArr [JObj [(''secretName'', JStr ''shop-tls'')]])"
    and ru: "path host_only_ingress [''spec'', ''rules''] =
      Inr (JArr [JObj [(''host'', JStr ''static.example.org'')],
                 JObj [(''host'', JStr ''shop.example.org''),
                       (''http'',
                        JObj [(''paths'',
                               JArr [JObj [(''path'', JStr ''/'')],
                                     JObj [(''path'', JStr ''/api'')]])])]])"
    by (simp_all add: host_only_ingress_def)
  have it: "iterate (JArr [JObj [(''host'', JStr ''static.example.org'')],
                 JObj [(''host'', JStr ''shop.example.org''),
                       (''http'',
                        JObj [(''paths'',
                               JArr [JObj [(''path'', JStr ''/'')],
                                     JObj [(''path'', JStr ''/api'')]])])]]) =
      Inr (JObj [(''host'', JStr ''static.example.org'')] #
           [JObj [(''host'', JStr ''shop.example.org''),
                  (''http'',
                   JObj [(''paths'',
                          JArr [JObj [(''path'', JStr ''/'')],
                                JObj [(''path'', JStr ''/api'')]])])]])"
    by simp
  have ht: "path (JObj [(''host'', JStr ''static.example.org'')]) [''http'', ''paths''] =
      Inl TypeError"
    by simp
  have p: "length (rule_path_pairs host_only_ingress) = 2"
    by (simp add: rule_path_pairs_def rule_paths_def host_only_ingress_def)
  have z: "services_applied empty_world = 0"
    by (simp add: services_applied_def empty_world_def)
  note t = ingress_rule_without_http_fails [where opts = ingress_options
      and d = host_only_ingress and ns = "JStr ''shop''" and name = "JStr ''web''"
      and rules = "JArr [JObj [(''host'', JStr ''static.example.org'')],
                 JObj [(''host'', JStr ''shop.example.org''),
                       (''http'',
                        JObj [(''paths'',
                               JArr [JObj [(''path'', JStr ''/'')],
                                     JObj [(''path'', JStr ''/api'')]])])]]"
      and spec = "JObj [(''host'', JStr ''static.example.org'')]"
      and specs = "[JObj [(''host'', JStr ''shop.example.org''),
                  (''http'',
                   JObj [(''paths'',
                          JArr [JObj [(''path'', JStr ''/'')],
                                JObj [(''path'', JStr ''/api'')]])])]]"
      and e = TypeError and h = plain_helpers and w = empty_world]
  have r: "fst (ingress_prepareObject plain_helpers ingress_options host_only_ingress
        empty_world) = Inl TypeError \<and>
      services_applied (snd (ingress_prepareObject plain_helpers ingress_options
        host_only_ingress empty_world)) = 0"
    using t o ns nm ru it ht z by (simp del: path.simps iterate.simps)
  from o ns nm ht tl p r show ?thesis by simp
qed

section \<open>Merge precedence\<close>

lemma precedence_host: "map_of (assign c cfg) k = precedence c cfg [] k"
  by (simp add: precedence_def map_of_assign_key)

lemma precedence_service:
  "map_of (set_prop (assign (assign c sd) an) ''host_name'' n) k =
     (if k = ''host_name'' then Some n else precedence c sd an k)"
  by (simp add: precedence_def map_of_assign_key map_of_set_prop split: option.splits)

lemma attach_nodes_fst:
  "k \<noteq> ''host_name'' \<Longrightarrow> map_of (fst (attach_nodes name t ns D w)) k = map_of D k"
  by (induction ns arbitrary: D w) (simp_all add: Let_def map_of_set_prop)

lemma ingress_applyService_fst:
  "k \<noteq> ''host_name'' \<Longrightarrow>
   map_of (fst (ingress_applyService opts host name D t w)) k = map_of D k"
  by (simp add: ingress_applyService_def attach_nodes_fst Let_def map_of_set_prop)

lemma map_of_ingress_https:
  "map_of (ingress_https a) k =
     (if k = ''vars.http_ssl'' then Some (JBool True)
      else if k = ''display_name''
      then Some (JStr (to_string (case map_of a ''display_name'' of
                                    Some v \<Rightarrow> v | None \<Rightarrow> JUndefined) @ ''s''))
      else map_of a k)"
  by (simp add: ingress_https_def map_of_set_prop)

lemma volume_services_calls:
  assumes "path d [''spec'', ''claimRef'', ''namespace''] = Inr ns"
    and "escape_value h nm = Inr sname"
  shows "calls (snd (volume_services h opts d hostname nm w)) =
     calls w @
     (if truthy ns
      then [ApplyServiceGroup ns
              (Some (assign [(''vars._kubernetes'', JBool True)] (serviceGroupDefinition opts)))]
      else []) @
     map (\<lambda>n. ApplyService n sname
                (set_prop (assign (assign (volume_addition nm d (if truthy ns then [ns] else []))
                                     (serviceDefinition opts))
                             (prepareResource h d))
                   ''host_name'' n)
                (serviceTemplates opts @ prepareTemplates h d))
         (if attachToNodes opts then getWorkerNodes w else [hostname])"
  using assms
  by (simp add: volume_services_def Let_def volume_applyService_calls icinga_calls
      getWorkerNodes_def icinga_nodes del: path.simps)

lemma ingress_path_calls:
  assumes "get_prop p ''path'' = Inr pp" and "get_prop spec ''host'' = Inr host"
    and "path d [''spec'', ''tls''] = Inr tls"
    and "base = (if truthy pp then pp else JStr ''/'')"
    and "m = assign (assign (ingress_addition d host base ns) (serviceDefinition opts)) service"
    and "a1 = fst (ingress_applyService opts hostname
                     (escapeName h (array_join ''-'' [host, JStr ''http'', base])) m t w)"
  shows "calls (snd (ingress_path h opts d ns hostname service t spec p w)) =
     calls w @
     map (\<lambda>n. ApplyService n (escapeName h (array_join ''-'' [host, JStr ''http'', base]))
                (set_prop m ''host_name'' n) t)
         (if attachToNodes opts then getWorkerNodes w else [hostname]) @
     (if truthy tls
      then map (\<lambda>n. ApplyService n (escapeName h (array_join ''-'' [host, JStr ''https'', base]))
                     (set_prop (ingress_https a1) ''host_name'' n) t)
             (if attachToNodes opts then getWorkerNodes w else [hostname])
      else [])"
proof -
  define name where "name = escapeName h (array_join ''-'' [host, JStr ''http'', base])"
  obtain x w1 where x: "ingress_applyService opts hostname name m t w = (x, w1)"
    by (cases "ingress_applyService opts hostname name m t w")
  have xa: "x = a1" using x assms(6) by (simp add: name_def)
  have w1: "calls w1 = calls w @ map (\<lambda>n. ApplyService n name (set_prop m ''host_name'' n) t)
      (if attachToNodes opts then getWorkerNodes w else [hostname])"
    and n1: "getWorkerNodes w1 = getWorkerNodes w"
    using ingress_applyService_pair [OF x] by (simp_all add: getWorkerNodes_def)
  have b: "(if truthy pp then pp else JStr ''/'') = base" using assms(4) by simp
  have mm: "assign (assign (ingress_addition d host base ns) (serviceDefinition opts)) service = m"
    using assms(5) by simp
  have nn: "escapeName h (array_join ''-'' [host, JStr ''http'', base]) = name"
    by (simp add: name_def)
  have e: "ingress_path h opts d ns hostname service t spec p w =
      (if truthy tls
       then (Inr (), snd (ingress_applyService opts hostname
                            (escapeName h (array_join ''-'' [host, JStr ''https'', base]))
                            (ingress_https x) t w1))
       else (Inr (), w1))"
    unfolding ingress_path_def assms(1) assms(2) assms(3) sum.case Let_def b mm nn x prod.case
    by (rule refl)
  show ?thesis
    unfolding e nn using w1 n1 xa by (simp add: ingress_applyService_calls)
qed

text \<open>
  C7 (as amended). Every host definition applied, by the Node, Volume and Ingress
  translators, is the computed fields overridden by \<open>hostDefinition\<close>: a key of
  \<open>hostDefinition\<close> wins, so a \<open>display_name\<close> set there is the one applied. Every service
  definition applied is the computed fields overridden by \<open>serviceDefinition\<close> and then
  by the annotation override, except for what is assigned after the merge:
  \<open>host_name\<close> is always the target host, and in the https variant of an ingress service
  \<open>vars.http_ssl\<close> is true and \<open>display_name\<close> is the merged one followed by \<open>s\<close>.
\<close>

theorem merge_precedence:
  "calls (volume_applyHost opts name address md t w) =
     calls w @ [ApplyHost name (assign (volume_host name address md) (hostDefinition opts))
                  (hostTemplates opts)] \<and>
   calls (ingress_applyHost opts name address md t w) =
     calls w @ [ApplyHost name (assign (ingress_host name address md) (hostDefinition opts))
                  (hostTemplates opts)] \<and>
   (path d [''metadata'', ''name''] = Inr nm \<and> path d [''spec'', ''unschedulable''] = Inr u \<longrightarrow>
      calls (snd (node_prepareObject opts d w)) =
        calls w @ [ApplyHost nm (assign (node_host nm d) (hostDefinition opts))
                     (hostTemplates opts)]) \<and>
   map_of (assign c (hostDefinition opts)) k = precedence c (hostDefinition opts) [] k \<and>
   (map_of (hostDefinition opts) ''display_name'' = Some x \<longrightarrow>
      map_of (assign c (hostDefinition opts)) ''display_name'' = Some x) \<and>
   (path d [''spec'', ''claimRef'', ''namespace''] = Inr ns \<and> escape_value h nm = Inr sname \<longrightarrow>
      calls (snd (volume_services h opts d hostname nm w)) =
        calls w @
        (if truthy ns
         then [ApplyServiceGroup ns
                 (Some (assign [(''vars._kubernetes'', JBool True)]
                          (serviceGroupDefinition opts)))]
         else []) @
        map (\<lambda>n. ApplyService n sname
                   (set_prop (assign (assign (volume_addition nm d
                                                (if truthy ns then [ns] else []))
                                        (serviceDefinition opts))
                                (prepareResource h d))
                      ''host_name'' n)
                   (serviceTemplates opts @ prepareTemplates h d))
            (if attachToNodes opts then getWorkerNodes w else [hostname])) \<and>
   map_of (set_prop (assign (assign c (serviceDefinition opts)) service) ''host_name'' n) k =
     (if k = ''host_name'' then Some n else precedence c (serviceDefinition opts) service k) \<and>
   (get_prop p ''path'' = Inr pp \<and> get_prop spec ''host'' = Inr host \<and>
    path d [''spec'', ''tls''] = Inr tls \<and>
    base = (if truthy pp then pp else JStr ''/'') \<and>
    m = assign (assign (ingress_addition d host base ins) (serviceDefinition opts)) service \<and>
    held = fst (ingress_applyService opts hostname
                (escapeName h (array_join ''-'' [host, JStr ''http'', base])) m t w) \<longrightarrow>
      calls (snd (ingress_path h opts d ins hostname service t spec p w)) =
        calls w @
        map (\<lambda>n. ApplyService n (escapeName h (array_join ''-'' [host, JStr ''http'', base]))
                   (set_prop m ''host_name'' n) t)
            (if attachToNodes opts then getWorkerNodes w else [hostname]) @
        (if truthy tls
         then map (\<lambda>n. ApplyService n
                        (escapeName h (array_join ''-'' [host, JStr ''https'', base]))
                        (set_prop (ingress_https held) ''host_name'' n) t)
                (if attachToNodes opts then getWorkerNodes w else [hostname])
         else []) \<and>
      map_of (set_prop (ingress_https held) ''host_name'' n) k =
        (if k = ''host_name'' then Some n
         else if k = ''vars.http_ssl'' then Some (JBool True)
         else if k = ''display_name''
         then Some (JStr (to_string
                     (case precedence (ingress_addition d host base ins)
                             (serviceDefinition opts) service ''display_name'' of
                        Some v \<Rightarrow> v | None \<Rightarrow> JUndefined) @ ''s''))
         else precedence (ingress_addition d host base ins) (serviceDefinition opts)
                service k))"
proof (intro conjI impI)
  show "calls (volume_applyHost opts name address md t w) =
     calls w @ [ApplyHost name (assign (volume_host name address md) (hostDefinition opts))
                  (hostTemplates opts)]"
    by (rule volume_applyHost_calls)
next
  show "calls (ingress_applyHost opts name address md t w) =
     calls w @ [ApplyHost name (assign (ingress_host name address md) (hostDefinition opts))
                  (hostTemplates opts)]"
    by (rule ingress_applyHost_calls)
next
  assume "path d [''metadata'', ''name''] = Inr nm \<and> path d [''spec'', ''unschedulable''] = Inr u"
  then show "calls (snd (node_prepareObject opts d w)) =
        calls w @ [ApplyHost nm (assign (node_host nm d) (hostDefinition opts))
                     (hostTemplates opts)]"
    by (simp add: node_prepareObject_ok icinga_calls del: path.simps)
next
  show "map_of (assign c (hostDefinition opts)) k = precedence c (hostDefinition opts) [] k"
    by (rule precedence_host)
next
  assume "map_of (hostDefinition opts) ''display_name'' = Some x"
  then show "map_of (assign c (hostDefinition opts)) ''display_name'' = Some x"
    by (simp add: map_of_assign_key)
next
  assume "path d [''spec'', ''claimRef'', ''namespace''] = Inr ns \<and> escape_value h nm = Inr sname"
  then show "calls (snd (volume_services h opts d hostname nm w)) =
        calls w @
        (if truthy ns
         then [ApplyServiceGroup ns
                 (Some (assign [(''vars._kubernetes'', JBool True)]
                          (serviceGroupDefinition opts)))]
         else []) @
        map (\<lambda>n. ApplyService n sname
                   (set_prop (assign (assign (volume_addition nm d
                                                (if truthy ns then [ns] else []))
                                        (serviceDefinition opts))
                                (prepareResource h d))
                      ''host_name'' n)
                   (serviceTemplates opts @ prepareTemplates h d))
            (if attachToNodes opts then getWorkerNodes w else [hostname])"
    using volume_services_calls [of d ns h nm sname opts hostname w] by blast
next
  show "map_of (set_prop (assign (assign c (serviceDefinition opts)) service) ''host_name'' n) k =
     (if k = ''host_name'' then Some n else precedence c (serviceDefinition opts) service k)"
    by (rule precedence_service)
next
  assume a: "get_prop p ''path'' = Inr pp \<and> get_prop spec ''host'' = Inr host \<and>
    path d [''spec'', ''tls''] = Inr tls \<and>
    base = (if truthy pp then pp else JStr ''/'') \<and>
    m = assign (assign (ingress_addition d host base ins) (serviceDefinition opts)) service \<and>
    held = fst (ingress_applyService opts hostname
                (escapeName h (array_join ''-'' [host, JStr ''http'', base])) m t w)"
  then have a': "get_prop p ''path'' = Inr pp" "get_prop spec ''host'' = Inr host"
    "path d [''spec'', ''tls''] = Inr tls" "base = (if truthy pp then pp else JStr ''/'')"
    "m = assign (assign (ingress_addition d host base ins) (serviceDefinition opts)) service"
    "held = fst (ingress_applyService opts hostname
                (escapeName h (array_join ''-'' [host, JStr ''http'', base])) m t w)"
    by blast+
  show "calls (snd (ingress_path h opts d ins hostname service t spec p w)) =
        calls w @
        map (\<lambda>n. ApplyService n (escapeName h (array_join ''-'' [host, JStr ''http'', base]))
                   (set_prop m ''host_name'' n) t)
            (if attachToNodes opts then getWorkerNodes w else [hostname]) @
        (if truthy tls
         then map (\<lambda>n. ApplyService n
                        (escapeName h (array_join ''-'' [host, JStr ''https'', base]))
                        (set_prop (ingress_https held) ''host_name'' n) t)
                (if attachToNodes opts then getWorkerNodes w else [hostname])
         else [])"
    by (rule ingress_path_calls [OF a'])
  have f: "\<And>j. j \<noteq> ''host_name'' \<Longrightarrow>
      map_of held j = precedence (ingress_addition d host base ins) (serviceDefinition opts) service j"
    unfolding a'(6) a'(5)
    by (simp add: ingress_applyService_fst precedence_def map_of_assign_key split: option.splits)
  show "map_of (set_prop (ingress_https held) ''host_name'' n) k =
        (if k = ''host_name'' then Some n
         else if k = ''vars.http_ssl'' then Some (JBool True)
         else if k = ''display_name''
         then Some (JStr (to_string
                     (case precedence (ingress_addition d host base ins)
                             (serviceDefinition opts) service ''display_name'' of
                        Some v \<Rightarrow> v | None \<Rightarrow> JUndefined) @ ''s''))
         else precedence (ingress_addition d host base ins) (serviceDefinition opts)
                service k)"
    by (simp add: map_of_set_prop map_of_ingress_https f)
qed

text \<open>
  The claim as written fails where a field is assigned after the merge. A volume service
  configured with a \<open>host_name\<close> is applied with the resolved host as \<open>host_name\<close>; the
  https services of an ingress configured with \<open>display_name\<close> \<open>X\<close> are applied with
  \<open>display_name\<close> \<open>Xs\<close>.
\<close>

theorem merge_precedence_counterexample:
  "map (applied_field ''host_name'')
     (calls (snd (volume_prepareObject plain_helpers
                    (volume_DefaultOptions\<lparr>serviceDefinition :=
                                              [(''host_name'', JStr ''elsewhere'')]\<rparr>)
                    example_volume empty_world))) =
     [None, None, Some (JStr ''kubernetes-volumes'')] \<and>
   map (applied_field ''display_name'')
     (calls (snd (ingress_prepareObject plain_helpers
                    (ingress_options\<lparr>serviceDefinition := [(''display_name'', JStr ''X'')]\<rparr>)
                    example_ingress empty_world))) =
     [Some (JStr ''ingress-shop-web''), None,
      Some (JStr ''X''), Some (JStr ''Xs''), Some (JStr ''X''), Some (JStr ''Xs'')]"
proof -
  have v: "map (applied_field ''host_name'')
     (calls (snd (volume_prepareObject plain_helpers
                    (volume_DefaultOptions\<lparr>serviceDefinition :=
                                              [(''host_name'', JStr ''elsewhere'')]\<rparr>)
                    example_volume empty_world))) =
     [None, None, Some (JStr ''kubernetes-volumes'')]"
    by (simp add: volume_prepareObject_def getHostname_def getAnnotations_def
        volume_required_name_def volume_applyHost_def volume_services_def
        volume_applyService_def volume_host_def volume_addition_def icinga_def assign_def
        hostName_value_def example_volume_def volume_DefaultOptions_def empty_world_def
        plain_helpers_def Let_def)
  have i: "map (applied_field ''display_name'')
     (calls (snd (ingress_prepareObject plain_helpers
                    (ingress_options\<lparr>serviceDefinition := [(''display_name'', JStr ''X'')]\<rparr>)
                    example_ingress empty_world))) =
     [Some (JStr ''ingress-shop-web''), None,
      Some (JStr ''X''), Some (JStr ''Xs''), Some (JStr ''X''), Some (JStr ''Xs'')]"
    by (simp add: ingress_prepareObject_def ingress_path_def ingress_applyService_def
        ingress_applyHost_def ingress_https_def ingress_host_def ingress_addition_def
        icinga_def assign_def array_join_def Let_def example_ingress_def ingress_options_def
        plain_helpers_def empty_world_def)
  from v i show ?thesis by (rule conjI)
qed

theorem merge_precedence_witness:
  "map_of (hostDefinition (volume_DefaultOptions\<lparr>hostDefinition :=
                                                   [(''display_name'', JStr ''X'')]\<rparr>))
     ''display_name'' = Some (JStr ''X'') \<and>
   map_of (assign (volume_host (JStr ''pool'') (JStr ''pool'') example_volume)
             [(''display_name'', JStr ''X'')]) ''display_name'' = Some (JStr ''X'') \<and>
   path worker_node [''metadata'', ''name''] = Inr (JStr ''worker-1'') \<and>
   path worker_node [''spec'', ''unschedulable''] = Inr JUndefined \<and>
   calls (snd (node_prepareObject node_DefaultOptions worker_node empty_world)) =
     [ApplyHost (JStr ''worker-1'') (node_host (JStr ''worker-1'') worker_node) []] \<and>
   path example_volume [''spec'', ''claimRef'', ''namespace''] = Inr (JStr ''shop'') \<and>
   escape_value plain_helpers (JStr ''data-1'') = Inr ''data-1'' \<and>
   calls (snd (volume_services plain_helpers volume_DefaultOptions example_volume
                 (JStr ''kubernetes-volumes'') (JStr ''data-1'') empty_world)) =
     [ApplyServiceGroup (JStr ''shop'') (Some [(''vars._kubernetes'', JBool True)]),
      ApplyService (JStr ''kubernetes-volumes'') ''data-1''
        (set_prop (volume_addition (JStr ''data-1'') example_volume [JStr ''shop''])
           ''host_name'' (JStr ''kubernetes-volumes'')) []] \<and>
   get_prop (JObj [(''path'', JStr ''/api'')]) ''path'' = Inr (JStr ''/api'') \<and>
   get_prop (JObj [(''host'', JStr ''a.org'')]) ''host'' = Inr (JStr ''a.org'') \<and>
   path example_ingress [''spec'', ''tls''] =
     Inr (JArr [JObj [(''secretName'', JStr ''shop-tls'')]]) \<and>
   map (applied_field ''display_name'')
     (calls (snd (ingress_path plain_helpers ingress_options example_ingress (JStr ''shop'')
                    (JStr ''ingress-shop-web'') [] [] (JObj [(''host'', JStr ''a.org'')])
                    (JObj [(''path'', JStr ''/api'')]) empty_world))) =
     [Some (JStr ''a.org/api:http''), Some (JStr ''a.org/api:https'')]"
proof -
  have h2: "map_of (hostDefinition (volume_DefaultOptions\<lparr>hostDefinition :=
        [(''display_name'', JStr ''X'')]\<rparr>)) ''display_name'' = Some (JStr ''X'')"
    by simp
  have n1: "path worker_node [''metadata'', ''name''] = Inr (JStr ''worker-1'')"
    and n2: "path worker_node [''spec'', ''unschedulable''] = Inr JUndefined"
    by (simp_all add: worker_node_def)
  have v1: "path example_volume [''spec'', ''claimRef'', ''namespace''] = Inr (JStr ''shop'')"
    by (simp add: example_volume_def)
  have v2: "escape_value plain_helpers (JStr ''data-1'') = Inr ''data-1''"
    by (simp add: plain_helpers_def)
  have i1: "get_prop (JObj [(''path'', JStr ''/api'')]) ''path'' = Inr (JStr ''/api'')"
    and i2: "get_prop (JObj [(''host'', JStr ''a.org'')]) ''host'' = Inr (JStr ''a.org'')"
    by simp_all
  have i3: "path example_ingress [''spec'', ''tls''] =
      Inr (JArr [JObj [(''secretName'', JStr ''shop-tls'')]])"
    by (simp add: example_ingress_def)
  note a = merge_precedence [where opts = "volume_DefaultOptions\<lparr>hostDefinition :=
        [(''display_name'', JStr ''X'')]\<rparr>" and x = "JStr ''X''"
      and c = "volume_host (JStr ''pool'') (JStr ''pool'') example_volume",
      THEN conjunct2, THEN conjunct2, THEN conjunct2, THEN conjunct2, THEN conjunct1]
  note b = merge_precedence [where opts = node_DefaultOptions and d = worker_node
      and nm = "JStr ''worker-1''" and u = JUndefined and w = empty_world,
      THEN conjunct2, THEN conjunct2, THEN conjunct1]
  note c = merge_precedence [where opts = volume_DefaultOptions and d = example_volume
      and ns = "JStr ''shop''" and h = plain_helpers and nm = "JStr ''data-1''"
      and sname = "''data-1''" and hostname = "JStr ''kubernetes-volumes''" and w = empty_world,
      THEN conjunct2, THEN conjunct2, THEN conjunct2, THEN conjunct2, THEN conjunct2,
      THEN conjunct1]
  note d = merge_precedence [where opts = ingress_options and d = example_ingress
      and p = "JObj [(''path'', JStr ''/api'')]" and pp = "JStr ''/api''"
      and spec = "JObj [(''host'', JStr ''a.org'')]" and host = "JStr ''a.org''"
      and tls = "JArr [JObj [(''secretName'', JStr ''shop-tls'')]]" and base = "JStr ''/api''"
      and ins = "JStr ''shop''" and service = "[]" and h = plain_helpers
      and hostname = "JStr ''ingress-shop-web''" and t = "[]" and w = empty_world
      and m = "ingress_addition example_ingress (JStr ''a.org'') (JStr ''/api'') (JStr ''shop'')"
      and held = "set_prop (ingress_addition example_ingress (JStr ''a.org'') (JStr ''/api'')
                            (JStr ''shop'')) ''host_name'' (JStr ''ingress-shop-web'')"
      and n = "JStr ''ingress-shop-web''" and k = "''display_name''",
      THEN conjunct2, THEN conjunct2, THEN conjunct2, THEN conjunct2, THEN conjunct2,
      THEN conjunct2, THEN conjunct2]
  have o: "hostDefinition node_DefaultOptions = []" "hostTemplates node_DefaultOptions = []"
      "serviceGroupDefinition volume_DefaultOptions = []"
      "serviceDefinition volume_DefaultOptions = []" "serviceTemplates volume_DefaultOptions = []"
      "\<not> attachToNodes volume_DefaultOptions" "prepareResource plain_helpers = (\<lambda>d. [])"
      "prepareTemplates plain_helpers = (\<lambda>d. [])" "calls empty_world = []"
      "serviceDefinition ingress_options = []" "\<not> attachToNodes ingress_options"
    by (simp_all add: node_DefaultOptions_def volume_DefaultOptions_def plain_helpers_def
        empty_world_def ingress_options_def)
  have r1: "map_of (assign (volume_host (JStr ''pool'') (JStr ''pool'') example_volume)
             [(''display_name'', JStr ''X'')]) ''display_name'' = Some (JStr ''X'')"
    using a h2 by simp
  have r2: "calls (snd (node_prepareObject node_DefaultOptions worker_node empty_world)) =
     [ApplyHost (JStr ''worker-1'') (node_host (JStr ''worker-1'') worker_node) []]"
    using b n1 n2 o by (simp add: assign_empty del: path.simps)
  have r3: "calls (snd (volume_services plain_helpers volume_DefaultOptions example_volume
                 (JStr ''kubernetes-volumes'') (JStr ''data-1'') empty_world)) =
     [ApplyServiceGroup (JStr ''shop'') (Some [(''vars._kubernetes'', JBool True)]),
      ApplyService (JStr ''kubernetes-volumes'') ''data-1''
        (set_prop (volume_addition (JStr ''data-1'') example_volume [JStr ''shop''])
           ''host_name'' (JStr ''kubernetes-volumes'')) []]"
    using c v1 v2 o by (simp add: assign_empty del: path.simps)
  have r4: "map (applied_field ''display_name'')
     (calls (snd (ingress_path plain_helpers ingress_options example_ingress (JStr ''shop'')
                    (JStr ''ingress-shop-web'') [] [] (JObj [(''host'', JStr ''a.org'')])
                    (JObj [(''path'', JStr ''/api'')]) empty_world))) =
     [Some (JStr ''a.org/api:http''), Some (JStr ''a.org/api:https'')]"
    using d i1 i2 i3 o
    by (simp add: assign_empty ingress_applyService_def Let_def map_of_set_prop
        map_of_ingress_https ingress_addition_def del: path.simps)
  from h2 r1 n1 n2 r2 v1 v2 r3 i1 i2 i3 r4 show ?thesis by blast
qed

section \<open>The worker registry\<close>

lemma volume_services_nodes:
  "nodes (snd (volume_services h opts d hostname name w)) = nodes w"
  by (simp add: volume_services_def Let_def volume_applyService_nodes icinga_nodes
      split: sum.splits del: path.simps)

lemma volume_prepareObject_nodes:
  "nodes (snd (volume_prepareObject h opts d w)) = nodes w"
  by (simp add: volume_prepareObject_def Let_def volume_services_nodes volume_applyHost_nodes
      split: sum.splits)

lemma volume_deleteObject_nodes:
  "nodes (snd (volume_deleteObject h opts d w)) = nodes w"
  by (simp add: volume_deleteObject_def icinga_nodes split: sum.splits del: path.simps)

lemma volume_on_data_nodes: "nodes (volume_on_data h opts ev w) = nodes w"
  by (simp add: volume_on_data_def handleResource_def volume_prepareObject_nodes
      volume_deleteObject_nodes del: path.simps)

lemma ingress_on_data_nodes: "nodes (snd (ingress_on_data h opts ev w)) = nodes w"
proof -
  have p: "\<And>w0. nodes (snd (ingress_prepareObject h opts (ev_object ev) w0)) = nodes w0"
    using ingress_prepareObject_extends by (simp add: extends_def)
  show ?thesis
    by (simp add: ingress_on_data_def p icinga_nodes split: sum.splits del: path.simps)
qed

text \<open>
  C1. The worker registry is a function of the processed Node events. \<open>prepareObject\<close>
  on a node whose \<open>spec.unschedulable\<close> is falsy appends its \<open>metadata.name\<close> to what
  \<open>getWorkerNodes\<close> returns, and so does an ADDED event for such a node; an event whose
  object has a truthy \<open>unschedulable\<close> leaves the registry as it is; \<open>deleteObject\<close> leaves
  it as it is; every Node event and every stream of Node events only extends it; and the
  Volume and Ingress listeners, which read it, leave it as it is.
\<close>

theorem node_registry_append_only:
  "(path d [''metadata'', ''name''] = Inr name \<and> path d [''spec'', ''unschedulable''] = Inr u \<and>
      \<not> truthy u \<longrightarrow>
      getWorkerNodes (snd (node_prepareObject opts d w)) = getWorkerNodes w @ [name]) \<and>
   (ev_type ev = ''ADDED'' \<and> path (ev_object ev) [''kind''] = Inr (JStr ''Node'') \<and> discover opts \<and>
      path (ev_object ev) [''metadata'', ''name''] = Inr name \<and>
      path (ev_object ev) [''spec'', ''unschedulable''] = Inr u \<and> \<not> truthy u \<longrightarrow>
      getWorkerNodes (node_on_data opts ev w) = getWorkerNodes w @ [name]) \<and>
   (path (ev_object ev) [''spec'', ''unschedulable''] = Inr u \<and> truthy u \<longrightarrow>
      getWorkerNodes (node_on_data opts ev w) = getWorkerNodes w) \<and>
   getWorkerNodes (snd (node_deleteObject d w)) = getWorkerNodes w \<and>
   (\<exists>ys. getWorkerNodes (node_on_data opts ev w) = getWorkerNodes w @ ys) \<and>
   (\<exists>zs. getWorkerNodes (node_watch opts evs w) = getWorkerNodes w @ zs) \<and>
   getWorkerNodes (volume_on_data h opts' ev w) = getWorkerNodes w \<and>
   getWorkerNodes (snd (ingress_on_data h opts' ev w)) = getWorkerNodes w"
proof (intro conjI impI)
  assume "path d [''metadata'', ''name''] = Inr name \<and>
      path d [''spec'', ''unschedulable''] = Inr u \<and> \<not> truthy u"
  then show "getWorkerNodes (snd (node_prepareObject opts d w)) = getWorkerNodes w @ [name]"
    by (simp add: node_prepareObject_nodes)
next
  assume "ev_type ev = ''ADDED'' \<and> path (ev_object ev) [''kind''] = Inr (JStr ''Node'') \<and>
      discover opts \<and> path (ev_object ev) [''metadata'', ''name''] = Inr name \<and>
      path (ev_object ev) [''spec'', ''unschedulable''] = Inr u \<and> \<not> truthy u"
  then show "getWorkerNodes (node_on_data opts ev w) = getWorkerNodes w @ [name]"
    by (simp add: node_on_data_def handleResource_def node_prepareObject_nodes)
next
  assume "path (ev_object ev) [''spec'', ''unschedulable''] = Inr u \<and> truthy u"
  then show "getWorkerNodes (node_on_data opts ev w) = getWorkerNodes w"
    by (simp add: node_on_data_def handleResource_def node_prepareObject_nodes
        node_deleteObject_nodes split: sum.splits)
next
  show "getWorkerNodes (snd (node_deleteObject d w)) = getWorkerNodes w"
    by (rule node_deleteObject_nodes)
next
  show "\<exists>ys. getWorkerNodes (node_on_data opts ev w) = getWorkerNodes w @ ys"
    by (rule node_on_data_grows)
next
  show "\<exists>zs. getWorkerNodes (node_watch opts evs w) = getWorkerNodes w @ zs"
    by (rule node_watch_grows)
next
  show "getWorkerNodes (volume_on_data h opts' ev w) = getWorkerNodes w"
    by (simp add: getWorkerNodes_def volume_on_data_nodes)
next
  show "getWorkerNodes (snd (ingress_on_data h opts' ev w)) = getWorkerNodes w"
    by (simp add: getWorkerNodes_def ingress_on_data_nodes)
qed

theorem node_registry_append_only_witness:
  "path worker_node [''metadata'', ''name''] = Inr (JStr ''worker-1'') \<and>
   path worker_node [''spec'', ''unschedulable''] = Inr JUndefined \<and>
   \<not> truthy JUndefined \<and>
   getWorkerNodes (snd (node_prepareObject node_DefaultOptions worker_node empty_world)) =
     [JStr ''worker-1''] \<and>
   getWorkerNodes (node_on_data node_DefaultOptions
                     \<lparr>ev_type = ''ADDED'', ev_object = worker_node\<rparr> empty_world) =
     [JStr ''worker-1''] \<and>
   path cordoned_node [''spec'', ''unschedulable''] = Inr (JBool True) \<and>
   getWorkerNodes (node_on_data node_DefaultOptions
                     \<lparr>ev_type = ''ADDED'', ev_object = cordoned_node\<rparr> empty_world) = []"
proof -
  have n: "path worker_node [''metadata'', ''name''] = Inr (JStr ''worker-1'')"
    and u: "path worker_node [''spec'', ''unschedulable''] = Inr JUndefined"
    and k: "path worker_node [''kind''] = Inr (JStr ''Node'')"
    by (simp_all add: worker_node_def)
  have c: "path cordoned_node [''spec'', ''unschedulable''] = Inr (JBool True)"
    by (simp add: cordoned_node_def)
  have o: "discover node_DefaultOptions" "getWorkerNodes empty_world = []"
    by (simp_all add: node_DefaultOptions_def empty_world_def getWorkerNodes_def)
  note t1 = node_registry_append_only [where d = worker_node and name = "JStr ''worker-1''"
      and u = JUndefined and opts = node_DefaultOptions and w = empty_world
      and ev = "\<lparr>ev_type = ''ADDED'', ev_object = worker_node\<rparr>"]
  note t2 = node_registry_append_only [where u = "JBool True" and opts = node_DefaultOptions
      and w = empty_world and ev = "\<lparr>ev_type = ''ADDED'', ev_object = cordoned_node\<rparr>"]
  show ?thesis using t1 t2 n u k c o by simp
qed

end
